theory Spec2Isabelle
  imports Complex_Main "HOL-Library.Multiset" "HOL-Library.Sublist"
begin

section \<open>Python values used by the scripts\<close>

text \<open>
  Exceptions are values. Every class below derives from Python's \<open>Exception\<close>, so an
  \<open>except Exception\<close> clause catches each of them. The argument is the message that
  \<open>str(e)\<close> returns.
\<close>

datatype exn =
    FileNotFoundError string
  | ImageFileError string
  | OSError string
  | PermissionError string
  | HeaderDataError string
  | KeyError string
  | TypeError string

fun str :: "exn \<Rightarrow> string" where
  "str (FileNotFoundError m) = m"
| "str (ImageFileError m) = m"
| "str (OSError m) = m"
| "str (PermissionError m) = m"
| "str (HeaderDataError m) = m"
| "str (KeyError m) = m"
| "str (TypeError m) = m"

text \<open>
  \<open>s.replace(old, new)\<close>: every non-overlapping occurrence of \<open>old\<close>, found from the
  left, is replaced by \<open>new\<close>. With an empty \<open>old\<close> Python puts \<open>new\<close> before every
  character and at the end.
\<close>

function py_replace :: "string \<Rightarrow> string \<Rightarrow> string \<Rightarrow> string" where
  "py_replace old new s =
     (if old = [] then new @ concat (map (\<lambda>c. c # new) s)
      else if s = [] then []
      else if prefix old s then new @ py_replace old new (drop (length old) s)
      else hd s # py_replace old new (tl s))"
  by pat_completeness auto
termination
  by (relation "measure (\<lambda>(old, new, s). length s)") auto

text \<open>\<open>s.rfind(c)\<close> for a single character: the last index of \<open>c\<close>, if any.\<close>

fun rfind :: "char \<Rightarrow> string \<Rightarrow> nat option" where
  "rfind c [] = None"
| "rfind c (x # xs) =
     (case rfind c xs of
        Some i \<Rightarrow> Some (Suc i)
      | None \<Rightarrow> if x = c then Some 0 else None)"

subsection \<open>pathlib\<close>

text \<open>
  A path is its directory and its final component. \<open>p.parent / s\<close> keeps the directory
  and takes \<open>s\<close> as the final component (\<open>s\<close> has no separator here: it comes from a file
  name by replacing text that has none).
\<close>

record path =
  parent :: string
  name :: string

definition path_div :: "string \<Rightarrow> string \<Rightarrow> path" where
  "path_div dir s = \<lparr>parent = dir, name = s\<rparr>"

text \<open>
  \<open>p.stem\<close>: the name without its last suffix. pathlib takes the last dot, unless it
  is the first or the last character of the name.
\<close>

definition stem :: "path \<Rightarrow> string" where
  "stem p =
     (case rfind (CHR ''.'') (name p) of
        None \<Rightarrow> name p
      | Some i \<Rightarrow> if 0 < i \<and> i < length (name p) - 1 then take i (name p) else name p)"

section \<open>Volumes and the files that hold them\<close>

text \<open>
  The format library (nibabel) and numpy are not part of the repository. They are
  modelled by what the script uses of them. Voxels are integers (labels and
  intensities). The entries of a transform are real numbers: the rounding of floating
  point numbers, and the bytes of a file, are not modelled. A transform is a 4 by 4
  matrix, given by its rows.
\<close>

type_synonym row = "real \<times> real \<times> real \<times> real"
type_synonym mat = "row \<times> row \<times> row \<times> row"

datatype dtype = UInt8 | Int8 | Int16 | UInt16 | Int32 | Int64

record ndarray =
  shape :: "nat list"
  dtype :: dtype
  elems :: "int list"

text \<open>\<open>arr.astype(np.uint8)\<close>: each integer is reduced modulo \<open>2 ^ 8\<close>; the shape stays.\<close>

definition astype_uint8 :: "ndarray \<Rightarrow> ndarray" where
  "astype_uint8 arr =
     \<lparr>shape = shape arr, dtype = UInt8, elems = map (\<lambda>x. x mod 256) (elems arr)\<rparr>"

text \<open>
  The header: the two codes, the three rows of the sform, the transform that the
  qform fields encode (quaternion, offsets and voxel sizes; it is kept as its three
  rows, and it is the transform given to \<open>set_qform\<close> when that one has no shear, as
  every transform read from a qform has none), the voxel sizes \<open>pixdim[1..3]\<close>, the data
  type on disk and the remaining fields. The header's \<open>dim\<close> is the shape of the data
  it comes with: a file's data has the shape its header gives, and the constructor of
  an image sets the header's shape from the data. The codes are the codes as nibabel
  presents them once it has read the file (a code the format does not know is read
  as 0).
\<close>

record 'h header =
  qform_code :: int
  sform_code :: int
  srow :: "row \<times> row \<times> row"
  quatern :: "row \<times> row \<times> row"
  pixdim :: "real \<times> real \<times> real"
  data_dtype :: dtype
  other :: 'h

text \<open>
  What a file holds, and an image in memory: the image has an affine of its own, which
  the calls below keep in step with the header.
\<close>

record 'h nifti =
  dataobj :: ndarray
  header :: "'h header"

record 'h image = "'h nifti" +
  affine :: mat

definition get_sform :: "'h header \<Rightarrow> mat" where
  "get_sform hdr = (case srow hdr of (x, y, z) \<Rightarrow> (x, y, z, (0, 0, 0, 1)))"

definition get_qform :: "'h header \<Rightarrow> mat" where
  "get_qform hdr = (case quatern hdr of (x, y, z) \<Rightarrow> (x, y, z, (0, 0, 0, 1)))"

text \<open>
  When nibabel reads a header it replaces a voxel size of 0 by 1 and a negative one
  by its absolute value; the model does so where the voxel sizes are read.
\<close>

definition zoom_fix :: "real \<Rightarrow> real" where
  "zoom_fix x = (if x = 0 then 1 else \<bar>x\<bar>)"

definition get_zooms :: "'h header \<Rightarrow> real \<times> real \<times> real" where
  "get_zooms hdr = (case pixdim hdr of (p0, p1, p2) \<Rightarrow> (zoom_fix p0, zoom_fix p1, zoom_fix p2))"

text \<open>
  \<open>shape_zoom_affine(shape, zooms, x_flip=True)\<close>: the transform of a volume of which
  only the shape and the voxel sizes are known. Axes beyond the shape have length 1 and
  voxel size 1; the origin is the centre of the volume; the first axis is flipped.
\<close>

definition shape_zoom_affine :: "nat list \<Rightarrow> real \<times> real \<times> real \<Rightarrow> mat" where
  "shape_zoom_affine sh zooms =
     (case zooms of (p0, p1, p2) \<Rightarrow>
       (let n = length sh;
            s0 = (if 0 < n then real (sh ! 0) else 1);
            s1 = (if 1 < n then real (sh ! 1) else 1);
            s2 = (if 2 < n then real (sh ! 2) else 1);
            z0 = - (if 0 < n then p0 else 1);
            z1 = (if 1 < n then p1 else 1);
            z2 = (if 2 < n then p2 else 1);
            o0 = (s0 - 1) / 2;
            o1 = (s1 - 1) / 2;
            o2 = (s2 - 1) / 2
        in ((z0, 0, 0, - o0 * z0), (0, z1, 0, - o1 * z1), (0, 0, z2, - o2 * z2), (0, 0, 0, 1))))"

definition get_base_affine :: "nat list \<Rightarrow> 'h header \<Rightarrow> mat" where
  "get_base_affine sh hdr = shape_zoom_affine sh (get_zooms hdr)"

text \<open>
  \<open>hdr.get_best_affine()\<close>, for a header whose data has the shape \<open>sh\<close>: the sform if its
  code is not 0, else the qform if its code is not 0, else the base affine.
\<close>

definition get_best_affine :: "nat list \<Rightarrow> 'h header \<Rightarrow> mat" where
  "get_best_affine sh hdr =
     (if sform_code hdr \<noteq> 0 then get_sform hdr
      else if qform_code hdr \<noteq> 0 then get_qform hdr
      else get_base_affine sh hdr)"

text \<open>The affine that \<open>nib.load\<close> reports for a file.\<close>

definition affine_of :: "'h nifti \<Rightarrow> mat" where
  "affine_of v = get_best_affine (shape (dataobj v)) (header v)"

text \<open>
  The voxel sizes of a transform: the lengths of the three columns of its upper left
  3 by 3 part. \<open>set_qform\<close> divides by them and decomposes the result; when one of them
  is 0 the decomposition fails and \<open>set_qform\<close> raises \<open>HeaderDataError\<close>.
\<close>

definition voxel_sizes :: "mat \<Rightarrow> real \<times> real \<times> real" where
  "voxel_sizes aff =
     (case aff of ((a00, a01, a02, a03), (a10, a11, a12, a13), (a20, a21, a22, a23), r3) \<Rightarrow>
        (sqrt (a00 * a00 + a10 * a10 + a20 * a20),
         sqrt (a01 * a01 + a11 * a11 + a21 * a21),
         sqrt (a02 * a02 + a12 * a12 + a22 * a22)))"

definition decomposable :: "mat \<Rightarrow> bool" where
  "decomposable aff =
     (case voxel_sizes aff of (z0, z1, z2) \<Rightarrow> z0 \<noteq> 0 \<and> z1 \<noteq> 0 \<and> z2 \<noteq> 0)"

definition top_rows :: "mat \<Rightarrow> row \<times> row \<times> row" where
  "top_rows aff = (case aff of (x, y, z, w) \<Rightarrow> (x, y, z))"

text \<open>
  The header's own \<open>set_sform\<close> and \<open>set_qform\<close>, on a transform that can be decomposed:
  the code and the rows are stored, and \<open>set_qform\<close> stores the voxel sizes too.
\<close>

definition hdr_set_sform :: "'h header \<Rightarrow> mat \<Rightarrow> int \<Rightarrow> 'h header" where
  "hdr_set_sform hdr aff code = hdr\<lparr>sform_code := code, srow := top_rows aff\<rparr>"

definition hdr_set_qform :: "'h header \<Rightarrow> mat \<Rightarrow> int \<Rightarrow> 'h header" where
  "hdr_set_qform hdr aff code =
     hdr\<lparr>qform_code := code, quatern := top_rows aff, pixdim := voxel_sizes aff\<rparr>"

text \<open>
  \<open>img.update_header()\<close>, as far as the transforms go: when the affine of the image is
  not the best affine of its header, the affine is written into the header, as sform
  with code 2 (aligned) and as qform with code 0 (unknown); the qform raises when the
  affine cannot be decomposed. nibabel compares the two transforms up to a small
  tolerance, the model compares them exactly; nibabel's message goes on with the
  matrix, the model's stops before it.
\<close>

definition update_header :: "'h image \<Rightarrow> exn + 'h header" where
  "update_header img =
     (if affine img = get_best_affine (shape (dataobj img)) (header img) then
        Inr (header img)
      else if \<not> decomposable (affine img) then
        Inl (HeaderDataError ''Could not decompose affine'')
      else
        Inr (hdr_set_qform (hdr_set_sform (header img) (affine img) 2) (affine img) 0))"

text \<open>
  \<open>nib.Nifti1Image(data, affine, header)\<close>: the image of the data, a copy of the affine
  and a copy of the header, which the constructor then updates.
\<close>

definition Nifti1Image :: "ndarray \<Rightarrow> mat \<Rightarrow> 'h header \<Rightarrow> exn + 'h image" where
  "Nifti1Image data aff hdr =
     (case update_header \<lparr>dataobj = data, header = hdr, affine = aff\<rparr> of
        Inl e \<Rightarrow> Inl e
      | Inr hdr' \<Rightarrow> Inr \<lparr>dataobj = data, header = hdr', affine = aff\<rparr>)"

definition set_data_dtype :: "'h image \<Rightarrow> dtype \<Rightarrow> 'h image" where
  "set_data_dtype img t = img\<lparr>header := (header img)\<lparr>data_dtype := t\<rparr>\<rparr>"

text \<open>
  \<open>img.set_qform(affine, code=c)\<close> and \<open>img.set_sform(affine, code=c)\<close>: the header's
  qform, or sform, is set, and then the image's affine is set to the best affine of
  the header. So the affine of the image afterwards need not be the one passed in.
\<close>

definition set_qform :: "'h image \<Rightarrow> mat \<Rightarrow> int \<Rightarrow> exn + 'h image" where
  "set_qform img aff code =
     (if \<not> decomposable aff then Inl (HeaderDataError ''Could not decompose affine'')
      else
        (let hdr = hdr_set_qform (header img) aff code
         in Inr (img\<lparr>header := hdr, affine := get_best_affine (shape (dataobj img)) hdr\<rparr>)))"

definition set_sform :: "'h image \<Rightarrow> mat \<Rightarrow> int \<Rightarrow> 'h image" where
  "set_sform img aff code =
     (let hdr = hdr_set_sform (header img) aff code
      in img\<lparr>header := hdr, affine := get_best_affine (shape (dataobj img)) hdr\<rparr>)"

text \<open>
  The file system: what each path holds, the paths whose \<open>stat\<close> fails, and the paths
  that refuse a write. A file is a volume, or content whose loading raises the given
  exception (a corrupt file, an I/O error, a file that may not be read). A path in
  \<open>stat_fault\<close> cannot be examined (no permission to search its directory, a name that
  is too long). A path in \<open>write_fault\<close> refuses to be written with the given exception
  (no permission, a full disk).
\<close>

datatype 'h entry = Volume "'h nifti" | Unreadable exn

record 'h fs =
  files :: "path \<rightharpoonup> 'h entry"
  stat_fault :: "path \<rightharpoonup> exn"
  write_fault :: "path \<rightharpoonup> exn"

definition path_str :: "path \<Rightarrow> string" where
  "path_str p = parent p @ ''/'' @ name p"

text \<open>
  \<open>p.exists()\<close> calls \<open>stat\<close>. pathlib (up to Python 3.12) takes the errors \<open>ENOENT\<close>,
  \<open>ENOTDIR\<close>, \<open>EBADF\<close> and \<open>ELOOP\<close> for an absent file and re-raises every other
  \<open>OSError\<close>, such as \<open>PermissionError\<close>.
\<close>

definition path_exists :: "'h fs \<Rightarrow> path \<Rightarrow> exn + bool" where
  "path_exists st p =
     (case stat_fault st p of
        Some e \<Rightarrow> Inl e
      | None \<Rightarrow> Inr (files st p \<noteq> None))"

text \<open>The image that \<open>nib.load\<close> makes of a volume: its affine is the best affine of the header.\<close>

definition loaded :: "'h nifti \<Rightarrow> 'h image" where
  "loaded v = \<lparr>dataobj = dataobj v, header = header v, affine = affine_of v\<rparr>"

text \<open>
  \<open>nib.load(p)\<close> calls \<open>stat\<close> first and turns every \<open>OSError\<close> of it into a
  \<open>FileNotFoundError\<close>; then it reads the file.
\<close>

definition nib_load :: "'h fs \<Rightarrow> path \<Rightarrow> exn + 'h image" where
  "nib_load st p =
     (if stat_fault st p \<noteq> None then
        Inl (FileNotFoundError
          (''No such file or no access: '' @ [CHR 0x27] @ path_str p @ [CHR 0x27]))
      else
        (case files st p of
           None \<Rightarrow>
             Inl (FileNotFoundError
               (''No such file or no access: '' @ [CHR 0x27] @ path_str p @ [CHR 0x27]))
         | Some (Unreadable e) \<Rightarrow> Inl e
         | Some (Volume v) \<Rightarrow> Inr (loaded v)))"

text \<open>
  \<open>nib.save(img, p)\<close> updates the header of the image, then opens the file and writes
  the header and the data.
\<close>

definition nib_save :: "'h image \<Rightarrow> path \<Rightarrow> 'h fs \<Rightarrow> (exn + unit) \<times> 'h fs" where
  "nib_save img p st =
     (case update_header img of
        Inl e \<Rightarrow> (Inl e, st)
      | Inr hdr \<Rightarrow>
          (case write_fault st p of
             Some e \<Rightarrow> (Inl e, st)
           | None \<Rightarrow>
               (Inr (), st\<lparr>files := (files st)
                  (p \<mapsto> Volume \<lparr>dataobj = dataobj img, header = hdr\<rparr>)\<rparr>)))"

section \<open>fix\_metadata.py\<close>

text \<open>
  The backup path of line 74:
  \<open>image_0001_path.parent / (image_0001_path.stem.replace('.nii', '_backup.nii') + '.gz')\<close>.
\<close>

definition backup_path :: "path \<Rightarrow> path" where
  "backup_path image_0001_path =
     path_div (parent image_0001_path)
       (py_replace ''.nii'' ''_backup.nii'' (stem image_0001_path) @ ''.gz'')"

text \<open>
  Lines 70 to 77, the \<open>if\<close> statement that saves. It yields the exception raised, or
  \<open>Some r\<close> when a branch returns \<open>r\<close>, or \<open>None\<close> when control passes the statement;
  only then is the last line of the function, \<open>return False\<close>, reached.
\<close>

definition save_fixed ::
  "'h image \<Rightarrow> 'h image \<Rightarrow> path \<Rightarrow> bool \<Rightarrow> 'h fs \<Rightarrow> (exn + bool option) \<times> 'h fs" where
  "save_fixed fixed_img_0001 img_0001 image_0001_path overwrite st =
     (if overwrite then
        (case nib_save fixed_img_0001 image_0001_path st of
           (Inl e, st1) \<Rightarrow> (Inl e, st1)
         | (Inr u, st1) \<Rightarrow> (Inr (Some True), st1))
      else
        (case nib_save img_0001 (backup_path image_0001_path) st of
           (Inl e, st1) \<Rightarrow> (Inl e, st1)
         | (Inr u, st1) \<Rightarrow>
             (case nib_save fixed_img_0001 image_0001_path st1 of
                (Inl e, st2) \<Rightarrow> (Inl e, st2)
              | (Inr u, st2) \<Rightarrow> (Inr (Some True), st2))))"

text \<open>
  \<open>fix_metadata(image_0000_path, image_0001_path, overwrite)\<close>: the exception raised or
  the value returned, and the file system afterwards. The constructor and \<open>set_qform\<close>
  can raise; nothing has been written then.
\<close>

definition fix_metadata ::
  "path \<Rightarrow> path \<Rightarrow> bool \<Rightarrow> 'h fs \<Rightarrow> (exn + bool) \<times> 'h fs" where
  "fix_metadata image_0000_path image_0001_path overwrite st =
     (case nib_load st image_0000_path of
        Inl e \<Rightarrow> (Inl e, st)
      | Inr img_0000 \<Rightarrow>
     (case nib_load st image_0001_path of
        Inl e \<Rightarrow> (Inl e, st)
      | Inr img_0001 \<Rightarrow>
     (let data_0001 = astype_uint8 (dataobj img_0001);
          ref_affine = affine img_0000;
          ref_header = header img_0000
      in (case Nifti1Image data_0001 ref_affine ref_header of
            Inl e \<Rightarrow> (Inl e, st)
          | Inr fixed_img_0001 \<Rightarrow>
     (let fixed_img_0001 = set_data_dtype fixed_img_0001 UInt8;
          qform = qform_code (header img_0000);
          sform = sform_code (header img_0000)
      in (case set_qform fixed_img_0001 ref_affine qform of
            Inl e \<Rightarrow> (Inl e, st)
          | Inr fixed_img_0001 \<Rightarrow>
     (let fixed_img_0001 = set_sform fixed_img_0001 ref_affine sform
      in (case save_fixed fixed_img_0001 img_0001 image_0001_path overwrite st of
            (Inl e, st') \<Rightarrow> (Inl e, st')
          | (Inr (Some r), st') \<Rightarrow> (Inr r, st')
          | (Inr None, st') \<Rightarrow> (Inr False, st')))))))))"

text \<open>
  What lines 50 to 67 make of the two files when no call raises, as it is written to
  the dependent path: the voxels of the dependent cast to \<open>uint8\<close>, and the header of
  the reference with the data type \<open>uint8\<close> and with the reference's affine set as qform
  and as sform under the reference's codes.
\<close>

definition reconciled :: "'h nifti \<Rightarrow> 'h nifti \<Rightarrow> 'h nifti" where
  "reconciled img_0000 img_0001 =
     \<lparr>dataobj = astype_uint8 (dataobj img_0001),
      header =
        hdr_set_sform
          (hdr_set_qform ((header img_0000)\<lparr>data_dtype := UInt8\<rparr>)
             (affine_of img_0000) (qform_code (header img_0000)))
          (affine_of img_0000) (sform_code (header img_0000))\<rparr>"

text \<open>The dependent path of line 21, in the directory of the reference.\<close>

definition img_0001_path_of :: "path \<Rightarrow> path" where
  "img_0001_path_of img_0000_path =
     path_div (parent img_0000_path)
       (py_replace ''_0000.nii.gz'' ''_0001.nii.gz'' (name img_0000_path))"

text \<open>
  \<open>_fix_metadata_wrapper(img_0000_path, overwrite)\<close>: the pair \<open>(status, message)\<close> it
  returns, or the exception that leaves it, and the file system afterwards. The test of
  line 23 stands before the \<open>try\<close>: an exception of \<open>exists\<close> leaves the function.
\<close>

definition fix_metadata_wrapper ::
  "path \<Rightarrow> bool \<Rightarrow> 'h fs \<Rightarrow> (exn + string \<times> string option) \<times> 'h fs" where
  "fix_metadata_wrapper img_0000_path overwrite st =
     (let img_0001_path = img_0001_path_of img_0000_path
      in (case path_exists st img_0001_path of
            Inl e \<Rightarrow> (Inl e, st)
          | Inr found \<Rightarrow>
              if \<not> found then
                (Inr (''missing'', Some (name img_0000_path)), st)
              else
                (case fix_metadata img_0000_path img_0001_path overwrite st of
                   (Inr r, st') \<Rightarrow> (Inr (''success'', None), st')
                 | (Inl e, st') \<Rightarrow>
                     (Inr (''error'', Some (name img_0001_path @ '': '' @ str e)), st'))))"

subsection \<open>A dataset directory to run the functions on\<close>

text \<open>
  Two channels of one case in \<open>imagesTr\<close>: the reference with the identity as sform
  and qform and codes 1 and 1, the dependent with another transform, other codes and
  a voxel outside the 8-bit range. \<open>example_backup\<close> is the path the backup of the
  dependent goes to.
\<close>

definition example_ref :: path where
  "example_ref = \<lparr>parent = ''imagesTr'', name = ''caseA_0000.nii.gz''\<rparr>"

definition example_dep :: path where
  "example_dep = \<lparr>parent = ''imagesTr'', name = ''caseA_0001.nii.gz''\<rparr>"

definition example_backup :: path where
  "example_backup = \<lparr>parent = ''imagesTr'', name = ''caseA_0001_backup.nii.gz''\<rparr>"

definition example_ref_vol :: "unit nifti" where
  "example_ref_vol =
     \<lparr>dataobj = \<lparr>shape = [2, 1, 1], dtype = Int16, elems = [100, 200]\<rparr>,
      header = \<lparr>qform_code = 1, sform_code = 1,
                srow = ((1, 0, 0, 0), (0, 1, 0, 0), (0, 0, 1, 0)),
                quatern = ((1, 0, 0, 0), (0, 1, 0, 0), (0, 0, 1, 0)),
                pixdim = (1, 1, 1), data_dtype = Int16, other = ()\<rparr>\<rparr>"

definition example_dep_vol :: "unit nifti" where
  "example_dep_vol =
     \<lparr>dataobj = \<lparr>shape = [2, 1, 1], dtype = Int16, elems = [1, 257]\<rparr>,
      header = \<lparr>qform_code = 0, sform_code = 2,
                srow = ((2, 0, 0, 5), (0, 2, 0, 5), (0, 0, 2, 5)),
                quatern = ((2, 0, 0, 5), (0, 2, 0, 5), (0, 0, 2, 5)),
                pixdim = (2, 2, 2), data_dtype = Int16, other = ()\<rparr>\<rparr>"

definition example_fs :: "unit fs" where
  "example_fs =
     \<lparr>files = [example_ref \<mapsto> Volume example_ref_vol, example_dep \<mapsto> Volume example_dep_vol],
      stat_fault = Map.empty, write_fault = Map.empty\<rparr>"


definition example_fs_corrupt :: "unit fs" where
  "example_fs_corrupt =
     \<lparr>files = [example_ref \<mapsto> Volume example_ref_vol,
               example_dep \<mapsto> Unreadable (ImageFileError ''not a NIfTI file'')],
      stat_fault = Map.empty, write_fault = Map.empty\<rparr>"

definition example_fs_denied :: "unit fs" where
  "example_fs_denied =
     \<lparr>files = [example_ref \<mapsto> Volume example_ref_vol, example_dep \<mapsto> Volume example_dep_vol],
      stat_fault = [example_dep \<mapsto> PermissionError ''[Errno 13] Permission denied''],
      write_fault = Map.empty\<rparr>"

text \<open>
  A directory in which the reference volume lies at the path that the backup of the
  dependent is written to.
\<close>

definition example_fs_alias :: "unit fs" where
  "example_fs_alias =
     \<lparr>files = [example_backup \<mapsto> Volume example_ref_vol, example_dep \<mapsto> Volume example_dep_vol],
      stat_fault = Map.empty, write_fault = Map.empty\<rparr>"

text \<open>
  A reference with both codes 0, so that its affine is its base affine, and a
  dependent of another shape.
\<close>

definition example_plain_ref_vol :: "unit nifti" where
  "example_plain_ref_vol =
     \<lparr>dataobj = \<lparr>shape = [3, 1, 1], dtype = Int16, elems = [7, 8, 9]\<rparr>,
      header = \<lparr>qform_code = 0, sform_code = 0,
                srow = ((0, 0, 0, 0), (0, 0, 0, 0), (0, 0, 0, 0)),
                quatern = ((1, 0, 0, 0), (0, 1, 0, 0), (0, 0, 1, 0)),
                pixdim = (1, 1, 1), data_dtype = Int16, other = ()\<rparr>\<rparr>"

definition example_long_dep_vol :: "unit nifti" where
  "example_long_dep_vol =
     \<lparr>dataobj = \<lparr>shape = [5, 1, 1], dtype = UInt8, elems = [0, 1, 1, 0, 0]\<rparr>,
      header = \<lparr>qform_code = 0, sform_code = 0,
                srow = ((0, 0, 0, 0), (0, 0, 0, 0), (0, 0, 0, 0)),
                quatern = ((1, 0, 0, 0), (0, 1, 0, 0), (0, 0, 1, 0)),
                pixdim = (1, 1, 1), data_dtype = UInt8, other = ()\<rparr>\<rparr>"

definition example_fs_plain :: "unit fs" where
  "example_fs_plain =
     \<lparr>files = [example_ref \<mapsto> Volume example_plain_ref_vol,
               example_dep \<mapsto> Volume example_long_dep_vol],
      stat_fault = Map.empty, write_fault = Map.empty\<rparr>"

section \<open>The JSON scripts\<close>

text \<open>
  A Python \<open>dict\<close> is the list of its items in insertion order, with distinct keys.
  \<open>d[k] = v\<close> replaces the value of a key that is present and appends a new key.
\<close>

fun dict_set :: "('k \<times> 'v) list \<Rightarrow> 'k \<Rightarrow> 'v \<Rightarrow> ('k \<times> 'v) list" where
  "dict_set [] k v = [(k, v)]"
| "dict_set ((k', v') # d) k v =
     (if k' = k then (k, v) # d else (k', v') # dict_set d k v)"

text \<open>JSON values as \<open>json.load\<close> returns them (numbers are integers here).\<close>

datatype json =
    JNull
  | JBool bool
  | JInt int
  | JStr string
  | JArr "json list"
  | JObj "(string \<times> json) list"

subsection \<open>scripts/update\_jsons.py\<close>

text \<open>
  \<open>update_step1_map\<close> and \<open>update_step2_map\<close> read a label map (keys to integer
  labels) from a file and write the new map back: the argument is what the file holds
  before, the result what it holds after.
\<close>

definition update_step1_map :: "(string \<times> int) list \<Rightarrow> (string \<times> int) list" where
  "update_step1_map data =
     (let new_data = dict_set [] ''101'' 1
      in fold (\<lambda>(k, v) new_data. dict_set new_data k (v + 1)) data new_data)"

definition update_step2_map :: "(string \<times> int) list \<Rightarrow> (string \<times> int) list" where
  "update_step2_map data =
     (let new_data = dict_set [] ''101'' 1
      in fold (\<lambda>(k, v) new_data. dict_set new_data k (v + 1)) data new_data)"

subsection \<open>scripts/update\_json\_order.py and scripts/revert\_json\_order.py\<close>

text \<open>
  \<open>n in x\<close> for an integer \<open>n\<close>: membership in a list, never a key of an object (keys
  are strings), a \<open>TypeError\<close> on anything else.
\<close>

fun int_in :: "int \<Rightarrow> json \<Rightarrow> exn + bool" where
  "int_in n (JArr xs) = Inr (JInt n \<in> set xs)"
| "int_in n (JObj kvs) = Inr False"
| "int_in n (JStr s) = Inl (TypeError ''in <string> requires string as left operand, not int'')"
| "int_in n JNull = Inl (TypeError ''argument of type NoneType is not iterable'')"
| "int_in n (JBool b) = Inl (TypeError ''argument of type bool is not iterable'')"
| "int_in n (JInt i) = Inl (TypeError ''argument of type int is not iterable'')"

text \<open>\<open>xs.remove(n)\<close> followed by \<open>xs.insert(0, n)\<close> on a list value.\<close>

fun move_first :: "int \<Rightarrow> json \<Rightarrow> json" where
  "move_first n (JArr xs) = JArr (JInt n # remove1 (JInt n) xs)"
| "move_first n x = x"

definition update_step1_json :: "(string \<times> json) list \<Rightarrow> exn + (string \<times> json) list" where
  "update_step1_json data =
     (case map_of data ''regions_class_order'' of
        None \<Rightarrow> Inl (KeyError ''regions_class_order'')
      | Some current_order \<Rightarrow>
          (case int_in 10 current_order of
             Inl e \<Rightarrow> Inl e
           | Inr present \<Rightarrow>
               (let current_order = (if present then move_first 10 current_order else current_order)
                in Inr (dict_set data ''regions_class_order'' current_order))))"

definition update_step2_json :: "(string \<times> json) list \<Rightarrow> exn + (string \<times> json) list" where
  "update_step2_json data =
     (case map_of data ''regions_class_order'' of
        None \<Rightarrow> Inl (KeyError ''regions_class_order'')
      | Some current_order \<Rightarrow>
          (case int_in 12 current_order of
             Inl e \<Rightarrow> Inl e
           | Inr present \<Rightarrow>
               (let current_order = (if present then move_first 12 current_order else current_order)
                in Inr (dict_set data ''regions_class_order'' current_order))))"

definition revert_step1_json :: "(string \<times> json) list \<Rightarrow> (string \<times> json) list" where
  "revert_step1_json data = dict_set data ''regions_class_order'' (JArr (map JInt [1..10]))"

definition revert_step2_json :: "(string \<times> json) list \<Rightarrow> (string \<times> json) list" where
  "revert_step2_json data = dict_set data ''regions_class_order'' (JArr (map JInt [1..12]))"

section \<open>Properties of the dictionary operations\<close>

lemma map_of_dict_set: "map_of (dict_set d k v) = (map_of d)(k \<mapsto> v)"
  by (induction d) (auto simp: fun_eq_iff)

lemma keys_dict_set:
  "map fst (dict_set d k v) = (if k \<in> set (map fst d) then map fst d else map fst d @ [k])"
  by (induction d) (force split: if_splits)+

lemma distinct_dict_set: "distinct (map fst d) \<Longrightarrow> distinct (map fst (dict_set d k v))"
  by (simp add: keys_dict_set)

lemma dict_set_dict_set: "dict_set (dict_set d k v) k w = dict_set d k w"
  by (induction d) auto

lemma dict_set_same_iff: "dict_set d k w = d \<longleftrightarrow> map_of d k = Some w"
  by (induction d) auto

lemma fold_dict_set:
  "distinct (map fst data) \<Longrightarrow>
   map_of (fold (\<lambda>(k, v) new_data. dict_set new_data k (f v)) data acc) k =
     (case map_of data k of Some v \<Rightarrow> Some (f v) | None \<Rightarrow> map_of acc k)"
proof (induction data arbitrary: acc)
  case Nil
  then show ?case by simp
next
  case (Cons kv data)
  obtain k' v' where kv: "kv = (k', v')" by (cases kv)
  from Cons.prems kv have d: "distinct (map fst data)" and nk: "k' \<notin> fst ` set data"
    by auto
  from nk have "map_of data k' = None" by (simp add: map_of_eq_None_iff)
  with Cons.IH [OF d] kv show ?case
    by (auto simp: map_of_dict_set split: option.splits)
qed

lemma fold_dict_set_distinct:
  "distinct (map fst acc) \<Longrightarrow>
   distinct (map fst (fold (\<lambda>(k, v) new_data. dict_set new_data k (f v)) data acc))"
  by (induction data arbitrary: acc) (auto simp: distinct_dict_set)

section \<open>The label maps: update\_step1\_map and update\_step2\_map\<close>

lemma update_step1_map_lookup:
  assumes "distinct (map fst data)"
  shows "map_of (update_step1_map data) k =
     (case map_of data k of
        Some v \<Rightarrow> Some (v + 1)
      | None \<Rightarrow> if k = ''101'' then Some 1 else None)"
  using fold_dict_set [OF assms, of "\<lambda>v. v + 1" "[(''101'', 1)]" k]
  by (auto simp: update_step1_map_def split: option.splits)

lemma update_step1_map_distinct: "distinct (map fst (update_step1_map data))"
  by (simp add: update_step1_map_def fold_dict_set_distinct)

lemma update_step2_map_eq: "update_step2_map = update_step1_map"
  by (simp add: fun_eq_iff update_step2_map_def update_step1_map_def)

text \<open>
  C9, as the code has it. For a label map \<open>data\<close> (a dict: distinct keys), both
  functions map every key \<open>k\<close> of the input to \<open>data[k] + 1\<close>, and the key \<open>101\<close> is
  present in the result. When \<open>101\<close> is not a key of the input it maps to 1; when it is,
  the entry put in first is overwritten and \<open>101\<close> maps to \<open>data[101] + 1\<close>. So \<open>101\<close>
  maps to 1 exactly when it is not a key of the input or the input maps it to 0.
  Applying a function twice adds 2 to every original value, and the second application
  always changes the map: neither function is idempotent.
\<close>

theorem update_map_spec:
  assumes "distinct (map fst data)"
  shows "(\<forall>k v. map_of data k = Some v \<longrightarrow> map_of (update_step1_map data) k = Some (v + 1))
       \<and> (\<forall>k v. map_of data k = Some v \<longrightarrow> map_of (update_step2_map data) k = Some (v + 1))
       \<and> ''101'' \<in> dom (map_of (update_step1_map data))
       \<and> ''101'' \<in> dom (map_of (update_step2_map data))
       \<and> (map_of data ''101'' = None \<longrightarrow> map_of (update_step1_map data) ''101'' = Some 1)
       \<and> (map_of data ''101'' = None \<longrightarrow> map_of (update_step2_map data) ''101'' = Some 1)
       \<and> (\<forall>v. map_of data ''101'' = Some v \<longrightarrow>
              map_of (update_step1_map data) ''101'' = Some (v + 1))
       \<and> (\<forall>v. map_of data ''101'' = Some v \<longrightarrow>
              map_of (update_step2_map data) ''101'' = Some (v + 1))
       \<and> (map_of (update_step1_map data) ''101'' = Some 1
            \<longleftrightarrow> map_of data ''101'' = None \<or> map_of data ''101'' = Some 0)
       \<and> (map_of (update_step2_map data) ''101'' = Some 1
            \<longleftrightarrow> map_of data ''101'' = None \<or> map_of data ''101'' = Some 0)
       \<and> (\<forall>k v. map_of data k = Some v \<longrightarrow>
              map_of (update_step1_map (update_step1_map data)) k = Some (v + 2))
       \<and> (\<forall>k v. map_of data k = Some v \<longrightarrow>
              map_of (update_step2_map (update_step2_map data)) k = Some (v + 2))
       \<and> update_step1_map (update_step1_map data) \<noteq> update_step1_map data
       \<and> update_step2_map (update_step2_map data) \<noteq> update_step2_map data"
proof -
  let ?u = "update_step1_map data"
  have d1: "distinct (map fst ?u)" by (rule update_step1_map_distinct)
  have l1: "\<And>k. map_of ?u k =
      (case map_of data k of
         Some v \<Rightarrow> Some (v + 1)
       | None \<Rightarrow> if k = ''101'' then Some 1 else None)"
    by (rule update_step1_map_lookup [OF assms])
  have l2: "\<And>k. map_of (update_step1_map ?u) k =
      (case map_of ?u k of
         Some v \<Rightarrow> Some (v + 1)
       | None \<Rightarrow> if k = ''101'' then Some 1 else None)"
    by (rule update_step1_map_lookup [OF d1])
  have once: "\<forall>k v. map_of data k = Some v \<longrightarrow> map_of ?u k = Some (v + 1)"
    by (simp add: l1)
  have twice: "\<forall>k v. map_of data k = Some v \<longrightarrow> map_of (update_step1_map ?u) k = Some (v + 2)"
    by (simp add: l1 l2)
  have present: "''101'' \<in> dom (map_of ?u)"
    by (simp add: dom_def l1 split: option.splits)
  have fresh: "map_of data ''101'' = None \<longrightarrow> map_of ?u ''101'' = Some 1"
    by (simp add: l1)
  have over: "\<forall>v. map_of data ''101'' = Some v \<longrightarrow> map_of ?u ''101'' = Some (v + 1)"
    by (simp add: l1)
  have one: "map_of ?u ''101'' = Some 1
      \<longleftrightarrow> map_of data ''101'' = None \<or> map_of data ''101'' = Some 0"
    by (simp add: l1 split: option.splits)
  have "map_of (update_step1_map ?u) ''101'' \<noteq> map_of ?u ''101''"
    by (simp add: l1 l2 split: option.splits)
  then have differ: "update_step1_map ?u \<noteq> ?u" by metis
  show ?thesis
    unfolding update_step2_map_eq
    by (intro conjI once twice present fresh over one differ)
qed

theorem update_map_spec_witness:
  "distinct (map fst [(''3'', 2::int), (''101'', 7)])
   \<and> map_of (update_step1_map [(''3'', 2), (''101'', 7)]) ''3'' = Some 3
   \<and> map_of (update_step2_map [(''3'', 2), (''101'', 7)]) ''101'' = Some 8
   \<and> map_of (update_step1_map (update_step1_map [(''3'', 2), (''101'', 7)])) ''3'' = Some 4
   \<and> update_step1_map (update_step1_map [(''3'', 2), (''101'', 7)])
       \<noteq> update_step1_map [(''3'', 2), (''101'', 7)]
   \<and> distinct (map fst [(''3'', 2::int)])
   \<and> map_of [(''3'', 2::int)] ''101'' = None
   \<and> map_of (update_step1_map [(''3'', 2)]) ''101'' = Some 1
   \<and> map_of (update_step2_map [(''3'', 2)]) ''101'' = Some 1
   \<and> map_of (update_step2_map (update_step2_map [(''3'', 2)])) ''3'' = Some 4"
proof -
  have d: "distinct (map fst [(''3'', 2::int), (''101'', 7)])" by simp
  have m3: "map_of [(''3'', 2::int), (''101'', 7)] ''3'' = Some 2" by simp
  have m101: "map_of [(''3'', 2::int), (''101'', 7)] ''101'' = Some 7" by simp
  have d': "distinct (map fst [(''3'', 2::int)])" by simp
  have n3: "map_of [(''3'', 2::int)] ''3'' = Some 2" by simp
  have n101: "map_of [(''3'', 2::int)] ''101'' = None" by simp
  from update_map_spec [OF d] update_map_spec [OF d'] m3 m101 n3 n101 d d' show ?thesis
    by simp
qed

text \<open>
  C9 as stated fails at the label map \<open>{"101": 0}\<close>: the result maps \<open>101\<close> to 1 although
  \<open>101\<close> is a key of the input.
\<close>

theorem update_map_101_counterexample:
  "map_of (update_step1_map [(''101'', 0)]) ''101'' = Some 1
   \<and> ''101'' \<in> fst ` set [(''101'', 0::int)]"
  by (simp add: update_step1_map_def)

section \<open>The class order: update and revert\<close>

lemma update_step1_json_array:
  assumes "map_of data ''regions_class_order'' = Some (JArr xs)"
  shows "update_step1_json data =
     Inr (dict_set data ''regions_class_order''
            (JArr (if JInt 10 \<in> set xs then JInt 10 # remove1 (JInt 10) xs else xs)))"
  by (simp add: update_step1_json_def assms)

lemma update_step2_json_array:
  assumes "map_of data ''regions_class_order'' = Some (JArr xs)"
  shows "update_step2_json data =
     Inr (dict_set data ''regions_class_order''
            (JArr (if JInt 12 \<in> set xs then JInt 12 # remove1 (JInt 12) xs else xs)))"
  by (simp add: update_step2_json_def assms)

lemma move_front_frame:
  assumes roc: "map_of data key = Some (JArr xs)"
    and ys: "ys = (if x \<in> set xs then x # remove1 x xs else xs)"
    and d: "d = dict_set data key (JArr ys)"
  shows "map_of d key = Some (JArr ys)"
    and "mset ys = mset xs"
    and "\<forall>k. k \<noteq> key \<longrightarrow> map_of d k = map_of data k"
    and "map fst d = map fst data"
    and "dict_set d key (JArr zs) = data \<longleftrightarrow> xs = zs"
proof -
  show "map_of d key = Some (JArr ys)" by (simp add: d map_of_dict_set)
  show "mset ys = mset xs" by (simp add: ys)
  show "\<forall>k. k \<noteq> key \<longrightarrow> map_of d k = map_of data k" by (simp add: d map_of_dict_set)
  from roc have "key \<in> set (map fst data)"
    by (metis map_of_eq_None_iff option.distinct(1) set_map)
  then show "map fst d = map fst data" by (simp add: d keys_dict_set)
  have "dict_set d key (JArr zs) = dict_set data key (JArr zs)"
    by (simp only: d dict_set_dict_set)
  then show "dict_set d key (JArr zs) = data \<longleftrightarrow> xs = zs"
    using roc by (simp only: dict_set_same_iff) auto
qed

text \<open>
  C10. When \<open>regions_class_order\<close> is a list \<open>xs\<close>, \<open>update_step1_json\<close> succeeds; if
  10 is in the list, the new list is 10 followed by \<open>xs\<close> without its first 10, otherwise
  the list is unchanged; either way it is a permutation of \<open>xs\<close>, every other field keeps
  its value and the fields keep their order. \<open>revert_step1_json\<close> sets the field to
  \<open>[1..10]\<close> in every dataset, so reverting the updated dataset gives back the original
  \<open>regions_class_order\<close>, and with it the original dataset, exactly when the original
  list was \<open>[1..10]\<close>. The same holds of \<open>update_step2_json\<close> and \<open>revert_step2_json\<close>
  with 12.
\<close>

theorem json_order_spec:
  assumes roc: "map_of data ''regions_class_order'' = Some (JArr xs)"
  shows "(\<exists>data' ys.
           update_step1_json data = Inr data'
         \<and> map_of data' ''regions_class_order'' = Some (JArr ys)
         \<and> (JInt 10 \<in> set xs \<longrightarrow> ys = JInt 10 # remove1 (JInt 10) xs)
         \<and> (JInt 10 \<notin> set xs \<longrightarrow> ys = xs)
         \<and> mset ys = mset xs
         \<and> (\<forall>k. k \<noteq> ''regions_class_order'' \<longrightarrow> map_of data' k = map_of data k)
         \<and> map fst data' = map fst data
         \<and> (\<forall>d. map_of (revert_step1_json d) ''regions_class_order''
                  = Some (JArr (map JInt [1..10])))
         \<and> (map_of (revert_step1_json data') ''regions_class_order''
                = map_of data ''regions_class_order'' \<longleftrightarrow> xs = map JInt [1..10])
         \<and> (revert_step1_json data' = data \<longleftrightarrow> xs = map JInt [1..10]))
       \<and> (\<exists>data' ys.
           update_step2_json data = Inr data'
         \<and> map_of data' ''regions_class_order'' = Some (JArr ys)
         \<and> (JInt 12 \<in> set xs \<longrightarrow> ys = JInt 12 # remove1 (JInt 12) xs)
         \<and> (JInt 12 \<notin> set xs \<longrightarrow> ys = xs)
         \<and> mset ys = mset xs
         \<and> (\<forall>k. k \<noteq> ''regions_class_order'' \<longrightarrow> map_of data' k = map_of data k)
         \<and> map fst data' = map fst data
         \<and> (\<forall>d. map_of (revert_step2_json d) ''regions_class_order''
                  = Some (JArr (map JInt [1..12])))
         \<and> (map_of (revert_step2_json data') ''regions_class_order''
                = map_of data ''regions_class_order'' \<longleftrightarrow> xs = map JInt [1..12])
         \<and> (revert_step2_json data' = data \<longleftrightarrow> xs = map JInt [1..12]))"
proof
  define ys where "ys = (if JInt 10 \<in> set xs then JInt 10 # remove1 (JInt 10) xs else xs)"
  define d where "d = dict_set data ''regions_class_order'' (JArr ys)"
  note f = move_front_frame [OF roc ys_def d_def]
  have u: "update_step1_json data = Inr d"
    by (simp only: update_step1_json_array [OF roc] d_def ys_def)
  have r: "\<forall>d. map_of (revert_step1_json d) ''regions_class_order''
      = Some (JArr (map JInt [1..10]))"
    by (simp only: revert_step1_json_def map_of_dict_set) simp
  have rf: "map_of (revert_step1_json d) ''regions_class_order''
      = map_of data ''regions_class_order'' \<longleftrightarrow> xs = map JInt [1..10]"
    using r roc by auto
  have b: "revert_step1_json d = data \<longleftrightarrow> xs = map JInt [1..10]"
    by (simp only: revert_step1_json_def f(5))
  have c1: "JInt 10 \<in> set xs \<longrightarrow> ys = JInt 10 # remove1 (JInt 10) xs"
    by (simp add: ys_def)
  have c2: "JInt 10 \<notin> set xs \<longrightarrow> ys = xs"
    by (simp add: ys_def)
  show "\<exists>data' ys.
           update_step1_json data = Inr data'
         \<and> map_of data' ''regions_class_order'' = Some (JArr ys)
         \<and> (JInt 10 \<in> set xs \<longrightarrow> ys = JInt 10 # remove1 (JInt 10) xs)
         \<and> (JInt 10 \<notin> set xs \<longrightarrow> ys = xs)
         \<and> mset ys = mset xs
         \<and> (\<forall>k. k \<noteq> ''regions_class_order'' \<longrightarrow> map_of data' k = map_of data k)
         \<and> map fst data' = map fst data
         \<and> (\<forall>d. map_of (revert_step1_json d) ''regions_class_order''
                  = Some (JArr (map JInt [1..10])))
         \<and> (map_of (revert_step1_json data') ''regions_class_order''
                = map_of data ''regions_class_order'' \<longleftrightarrow> xs = map JInt [1..10])
         \<and> (revert_step1_json data' = data \<longleftrightarrow> xs = map JInt [1..10])"
    by (intro exI [of _ d] exI [of _ ys] conjI u f(1) c1 c2 f(2) f(3) f(4) r rf b)
next
  define ys where "ys = (if JInt 12 \<in> set xs then JInt 12 # remove1 (JInt 12) xs else xs)"
  define d where "d = dict_set data ''regions_class_order'' (JArr ys)"
  note f = move_front_frame [OF roc ys_def d_def]
  have u: "update_step2_json data = Inr d"
    by (simp only: update_step2_json_array [OF roc] d_def ys_def)
  have r: "\<forall>d. map_of (revert_step2_json d) ''regions_class_order''
      = Some (JArr (map JInt [1..12]))"
    by (simp only: revert_step2_json_def map_of_dict_set) simp
  have rf: "map_of (revert_step2_json d) ''regions_class_order''
      = map_of data ''regions_class_order'' \<longleftrightarrow> xs = map JInt [1..12]"
    using r roc by auto
  have b: "revert_step2_json d = data \<longleftrightarrow> xs = map JInt [1..12]"
    by (simp only: revert_step2_json_def f(5))
  have c1: "JInt 12 \<in> set xs \<longrightarrow> ys = JInt 12 # remove1 (JInt 12) xs"
    by (simp add: ys_def)
  have c2: "JInt 12 \<notin> set xs \<longrightarrow> ys = xs"
    by (simp add: ys_def)
  show "\<exists>data' ys.
           update_step2_json data = Inr data'
         \<and> map_of data' ''regions_class_order'' = Some (JArr ys)
         \<and> (JInt 12 \<in> set xs \<longrightarrow> ys = JInt 12 # remove1 (JInt 12) xs)
         \<and> (JInt 12 \<notin> set xs \<longrightarrow> ys = xs)
         \<and> mset ys = mset xs
         \<and> (\<forall>k. k \<noteq> ''regions_class_order'' \<longrightarrow> map_of data' k = map_of data k)
         \<and> map fst data' = map fst data
         \<and> (\<forall>d. map_of (revert_step2_json d) ''regions_class_order''
                  = Some (JArr (map JInt [1..12])))
         \<and> (map_of (revert_step2_json data') ''regions_class_order''
                = map_of data ''regions_class_order'' \<longleftrightarrow> xs = map JInt [1..12])
         \<and> (revert_step2_json data' = data \<longleftrightarrow> xs = map JInt [1..12])"
    by (intro exI [of _ d] exI [of _ ys] conjI u f(1) c1 c2 f(2) f(3) f(4) r rf b)
qed

theorem json_order_spec_witness:
  "map_of [(''labels'', JObj [(''background'', JInt 0)]),
           (''regions_class_order'', JArr (map JInt [1..10])),
           (''numTraining'', JInt 0)] ''regions_class_order'' = Some (JArr (map JInt [1..10]))
   \<and> (\<exists>data'. update_step1_json [(''labels'', JObj [(''background'', JInt 0)]),
           (''regions_class_order'', JArr (map JInt [1..10])),
           (''numTraining'', JInt 0)] = Inr data'
        \<and> map_of data' ''regions_class_order''
            = Some (JArr (map JInt [10, 1, 2, 3, 4, 5, 6, 7, 8, 9]))
        \<and> map_of data' ''numTraining'' = Some (JInt 0)
        \<and> revert_step1_json data' = [(''labels'', JObj [(''background'', JInt 0)]),
           (''regions_class_order'', JArr (map JInt [1..10])),
           (''numTraining'', JInt 0)])
   \<and> (\<exists>data'. update_step2_json [(''labels'', JObj [(''background'', JInt 0)]),
           (''regions_class_order'', JArr (map JInt [1..10])),
           (''numTraining'', JInt 0)] = Inr data'
        \<and> map_of data' ''regions_class_order'' = Some (JArr (map JInt [1..10]))
        \<and> revert_step2_json data' \<noteq> [(''labels'', JObj [(''background'', JInt 0)]),
           (''regions_class_order'', JArr (map JInt [1..10])),
           (''numTraining'', JInt 0)])"
proof -
  let ?D = "[(''labels'', JObj [(''background'', JInt 0)]),
           (''regions_class_order'', JArr (map JInt [1..10])),
           (''numTraining'', JInt 0)]"
  have h: "map_of ?D ''regions_class_order'' = Some (JArr (map JInt [1..10]))" by simp
  have m: "JInt 10 \<in> set (map JInt [1..10])" by (simp add: upto.simps)
  have m': "JInt 12 \<notin> set (map JInt [1..10])" by (simp add: upto.simps)
  have r: "JInt 10 # remove1 (JInt 10) (map JInt [1..10])
      = map JInt [10, 1, 2, 3, 4, 5, 6, 7, 8, 9]"
    by (simp add: upto.simps)
  have ne: "map JInt [1..10] \<noteq> map JInt [1..12]"
  proof
    assume "map JInt [1..10] = map JInt [1..12]"
    then have "length (map JInt [1..10]) = length (map JInt [1..12])" by (rule arg_cong)
    then show False by simp
  qed
  note spec = json_order_spec [OF h]
  from spec [THEN conjunct1] obtain data' ys where one:
    "update_step1_json ?D = Inr data'"
    "map_of data' ''regions_class_order'' = Some (JArr ys)"
    "JInt 10 \<in> set (map JInt [1..10]) \<longrightarrow> ys = JInt 10 # remove1 (JInt 10) (map JInt [1..10])"
    "\<forall>k. k \<noteq> ''regions_class_order'' \<longrightarrow> map_of data' k = map_of ?D k"
    "revert_step1_json data' = ?D \<longleftrightarrow> map JInt [1..10] = map JInt [1..10]"
    by (elim exE conjE) (rule that; assumption)
  from spec [THEN conjunct2] obtain data'' zs where two:
    "update_step2_json ?D = Inr data''"
    "map_of data'' ''regions_class_order'' = Some (JArr zs)"
    "JInt 12 \<notin> set (map JInt [1..10]) \<longrightarrow> zs = map JInt [1..10]"
    "revert_step2_json data'' = ?D \<longleftrightarrow> map JInt [1..10] = map JInt [1..12]"
    by (elim exE conjE) (rule that; assumption)
  from one m r h have a: "\<exists>data'. update_step1_json ?D = Inr data'
        \<and> map_of data' ''regions_class_order''
            = Some (JArr (map JInt [10, 1, 2, 3, 4, 5, 6, 7, 8, 9]))
        \<and> map_of data' ''numTraining'' = Some (JInt 0)
        \<and> revert_step1_json data' = ?D"
    by simp
  from two m' ne have b: "\<exists>data'. update_step2_json ?D = Inr data'
        \<and> map_of data' ''regions_class_order'' = Some (JArr (map JInt [1..10]))
        \<and> revert_step2_json data' \<noteq> ?D"
    by simp
  from h a b show ?thesis by (intro conjI)
qed

section \<open>Properties of \<open>str.replace\<close> and of the derived paths\<close>

declare py_replace.simps [simp del]

lemma py_replace_Nil: "old \<noteq> [] \<Longrightarrow> py_replace old new [] = []"
  by (simp add: py_replace.simps)

lemma py_replace_prefix:
  "old \<noteq> [] \<Longrightarrow> py_replace old new (old @ s) = new @ py_replace old new s"
  by (subst py_replace.simps) simp

lemma py_replace_Cons:
  "old \<noteq> [] \<Longrightarrow> \<not> prefix old (c # s) \<Longrightarrow> py_replace old new (c # s) = c # py_replace old new s"
  by (subst py_replace.simps) simp



lemma py_replace_length_same:
  assumes "old \<noteq> []" "length new = length old"
  shows "length (py_replace old new s) = length s"
proof (induction s rule: length_induct)
  case (1 s)
  show ?case
  proof (cases "s = []")
    case True
    with assms show ?thesis by (simp add: py_replace_Nil)
  next
    case False
    show ?thesis
    proof (cases "prefix old s")
      case True
      then obtain t where s: "s = old @ t" by (auto simp: prefix_def)
      with assms have "length t < length s" by simp
      with 1 have "length (py_replace old new t) = length t" by blast
      with s assms show ?thesis by (simp add: py_replace_prefix)
    next
      case np: False
      from False obtain c t where s: "s = c # t" by (cases s) auto
      then have "length t < length s" by simp
      with 1 have "length (py_replace old new t) = length t" by blast
      with s np assms show ?thesis by (simp add: py_replace_Cons)
    qed
  qed
qed

lemma py_replace_length_le:
  assumes "old \<noteq> []" "length old \<le> length new"
  shows "length s \<le> length (py_replace old new s)"
proof (induction s rule: length_induct)
  case (1 s)
  show ?case
  proof (cases "s = []")
    case True
    then show ?thesis by simp
  next
    case False
    show ?thesis
    proof (cases "prefix old s")
      case True
      then obtain t where s: "s = old @ t" by (auto simp: prefix_def)
      with assms have "length t < length s" by simp
      with 1 have "length t \<le> length (py_replace old new t)" by blast
      with s assms show ?thesis by (simp add: py_replace_prefix)
    next
      case np: False
      from False obtain c t where s: "s = c # t" by (cases s) auto
      then have "length t < length s" by simp
      with 1 have "length t \<le> length (py_replace old new t)" by blast
      with s np assms show ?thesis by (simp add: py_replace_Cons)
    qed
  qed
qed

lemma py_replace_length_grow:
  assumes "old \<noteq> []" "length old \<le> length new"
  shows "sublist old s \<Longrightarrow> length s + (length new - length old) \<le> length (py_replace old new s)"
proof (induction s rule: length_induct)
  case (1 s)
  note sub = \<open>sublist old s\<close>
  from sub assms have ne: "s \<noteq> []" by auto
  show ?case
  proof (cases "prefix old s")
    case True
    then obtain t where s: "s = old @ t" by (auto simp: prefix_def)
    have "length t \<le> length (py_replace old new t)"
      by (rule py_replace_length_le [OF assms])
    with s assms show ?thesis by (simp add: py_replace_prefix)
  next
    case np: False
    from ne obtain c t where s: "s = c # t" by (cases s) auto
    from sub np s have "sublist old t" by (auto simp: sublist_Cons_right)
    moreover from s have "length t < length s" by simp
    ultimately have "length t + (length new - length old) \<le> length (py_replace old new t)"
      using 1 by blast
    with s np assms show ?thesis by (simp add: py_replace_Cons)
  qed
qed

lemma py_replace_changes:
  assumes "old \<noteq> []" "length new = length old" "new \<noteq> old"
  shows "sublist old s \<Longrightarrow> py_replace old new s \<noteq> s"
proof (induction s rule: length_induct)
  case (1 s)
  note sub = \<open>sublist old s\<close>
  from sub assms have ne: "s \<noteq> []" by auto
  show ?case
  proof (cases "prefix old s")
    case True
    then obtain t where s: "s = old @ t" by (auto simp: prefix_def)
    from assms have "new @ py_replace old new t \<noteq> old @ t" by simp
    with s assms show ?thesis by (simp add: py_replace_prefix)
  next
    case np: False
    from ne obtain c t where s: "s = c # t" by (cases s) auto
    from sub np s have "sublist old t" by (auto simp: sublist_Cons_right)
    moreover from s have "length t < length s" by simp
    ultimately have "py_replace old new t \<noteq> t" using 1 by blast
    with s np assms show ?thesis by (simp add: py_replace_Cons)
  qed
qed

lemma py_replace_self: "old \<noteq> [] \<Longrightarrow> py_replace old new old = new"
  using py_replace_prefix [of old new "[]"] by (simp add: py_replace_Nil)

lemma py_replace_suffix:
  assumes ne: "old \<noteq> []" and bf: "hd old \<notin> set (tl old)"
  shows "suffix old s \<Longrightarrow> suffix new (py_replace old new s)"
proof (induction s rule: length_induct)
  case (1 s)
  note suf = \<open>suffix old s\<close>
  from suf ne have sne: "s \<noteq> []" by auto
  show ?case
  proof (cases "prefix old s")
    case True
    then obtain t where s: "s = old @ t" by (auto simp: prefix_def)
    show ?thesis
    proof (cases "t = []")
      case True
      with s ne show ?thesis by (simp add: py_replace_self)
    next
      case tne: False
      have "suffix old t"
      proof (rule ccontr)
        assume nt: "\<not> suffix old t"
        from suf s have "suffix old t \<or> (\<exists>w. old = w @ t \<and> suffix w old)"
          by (simp only: suffix_append)
        with nt obtain w where w: "old = w @ t" and sw: "suffix w old" by blast
        from w nt have wne: "w \<noteq> []" by auto
        from w wne have hw: "hd w = hd old" by (cases w) auto
        from ne obtain c cs where old: "old = c # cs" by (cases old) auto
        from w tne have "w \<noteq> old" by auto
        with sw old have "suffix w cs" by (simp add: suffix_Cons)
        then have "set w \<subseteq> set cs" by (rule set_mono_suffix)
        with wne have "hd w \<in> set cs" by (cases w) auto
        with hw old bf show False by simp
      qed
      moreover from s ne have "length t < length s" by simp
      ultimately have "suffix new (py_replace old new t)" using 1 by blast
      then have "suffix new (new @ py_replace old new t)" by (rule suffix_appendI)
      with s ne show ?thesis by (simp add: py_replace_prefix)
    qed
  next
    case np: False
    from sne obtain c t where s: "s = c # t" by (cases s) auto
    from suf s have "old = c # t \<or> suffix old t" by (simp add: suffix_Cons)
    with np s have "suffix old t" by auto
    moreover from s have "length t < length s" by simp
    ultimately have "suffix new (py_replace old new t)" using 1 by blast
    then have "suffix new (c # py_replace old new t)" by (rule suffix_ConsI)
    with s np ne show ?thesis by (simp add: py_replace_Cons)
  qed
qed

lemma rfind_append:
  "rfind c (xs @ ys) =
     (case rfind c ys of Some i \<Rightarrow> Some (length xs + i) | None \<Rightarrow> rfind c xs)"
  by (induction xs) (auto split: option.splits)

lemma stem_gz:
  assumes "name p = b @ ''.gz''" "b \<noteq> []"
  shows "stem p = b"
  using assms by (simp add: stem_def rfind_append)

section \<open>Properties of the format library\<close>

lemma update_header_loaded: "update_header (loaded v) = Inr (header v)"
  by (simp add: update_header_def loaded_def affine_of_def)

lemma nib_save_loaded:
  "nib_save (loaded v) p st =
     (case write_fault st p of
        Some e \<Rightarrow> (Inl e, st)
      | None \<Rightarrow> (Inr (), st\<lparr>files := (files st)(p \<mapsto> Volume v)\<rparr>))"
proof -
  have eq: "\<lparr>dataobj = dataobj (loaded v), header = header v\<rparr> = v"
    by (simp add: loaded_def)
  show ?thesis
    by (simp add: nib_save_def update_header_loaded eq split: option.splits)
qed

lemma astype_uint8_shape: "shape (astype_uint8 a) = shape a"
  by (simp add: astype_uint8_def)

lemma astype_uint8_idem: "astype_uint8 (astype_uint8 a) = astype_uint8 a"
  by (simp add: astype_uint8_def)

lemma voxel_sizes_nonneg:
  "voxel_sizes aff = (z0, z1, z2) \<Longrightarrow> 0 \<le> z0 \<and> 0 \<le> z1 \<and> 0 \<le> z2"
  by (auto simp: voxel_sizes_def split: prod.splits)

lemma zoom_fix_pos: "0 < zoom_fix x"
  by (simp add: zoom_fix_def)

lemma zoom_fix_of_pos: "0 < x \<Longrightarrow> zoom_fix x = x"
  by (simp add: zoom_fix_def)

lemma get_zooms_voxel_sizes:
  assumes "decomposable aff"
  shows "get_zooms (hdr\<lparr>pixdim := voxel_sizes aff\<rparr>) = voxel_sizes aff"
proof -
  obtain z0 z1 z2 where z: "voxel_sizes aff = (z0, z1, z2)" by (cases "voxel_sizes aff")
  from voxel_sizes_nonneg [OF z] assms z have "0 < z0" "0 < z1" "0 < z2"
    by (auto simp: decomposable_def)
  with z show ?thesis by (simp add: get_zooms_def zoom_fix_of_pos)
qed

lemma voxel_sizes_shape_zoom_affine:
  assumes "0 < p0" "0 < p1" "0 < p2"
  shows "voxel_sizes (shape_zoom_affine sh (p0, p1, p2)) =
     (if 0 < length sh then p0 else 1, if 1 < length sh then p1 else 1,
      if 2 < length sh then p2 else 1)"
  using assms by (simp add: voxel_sizes_def shape_zoom_affine_def Let_def)

lemma shape_zoom_affine_padded:
  "shape_zoom_affine sh
     (if 0 < length sh then p0 else 1, if 1 < length sh then p1 else 1,
      if 2 < length sh then p2 else 1) = shape_zoom_affine sh (p0, p1, p2)"
  by (simp add: shape_zoom_affine_def Let_def)

lemma base_affine_decomposable: "decomposable (get_base_affine sh hdr)"
proof -
  obtain p0 p1 p2 where p: "pixdim hdr = (p0, p1, p2)" by (cases "pixdim hdr")
  have "voxel_sizes (shape_zoom_affine sh (zoom_fix p0, zoom_fix p1, zoom_fix p2)) =
     (if 0 < length sh then zoom_fix p0 else 1, if 1 < length sh then zoom_fix p1 else 1,
      if 2 < length sh then zoom_fix p2 else 1)"
    by (rule voxel_sizes_shape_zoom_affine) (rule zoom_fix_pos)+
  then show ?thesis
    using zoom_fix_pos [of p0] zoom_fix_pos [of p1] zoom_fix_pos [of p2]
    by (auto simp: decomposable_def get_base_affine_def get_zooms_def p)
qed

lemma base_affine_stable:
  "shape_zoom_affine sh (voxel_sizes (get_base_affine sh hdr)) = get_base_affine sh hdr"
proof -
  obtain p0 p1 p2 where p: "pixdim hdr = (p0, p1, p2)" by (cases "pixdim hdr")
  have "voxel_sizes (shape_zoom_affine sh (zoom_fix p0, zoom_fix p1, zoom_fix p2)) =
     (if 0 < length sh then zoom_fix p0 else 1, if 1 < length sh then zoom_fix p1 else 1,
      if 2 < length sh then zoom_fix p2 else 1)"
    by (rule voxel_sizes_shape_zoom_affine) (rule zoom_fix_pos)+
  then show ?thesis
    by (simp only: get_base_affine_def get_zooms_def p prod.case shape_zoom_affine_padded)
qed

lemma get_sform_top_rows: "get_sform (hdr\<lparr>srow := top_rows (get_sform h)\<rparr>) = get_sform h"
  by (simp add: get_sform_def top_rows_def split: prod.splits)

lemma get_qform_top_rows: "get_qform (hdr\<lparr>quatern := top_rows (get_qform h)\<rparr>) = get_qform h"
  by (simp add: get_qform_def top_rows_def split: prod.splits)

lemma voxel_sizes_top_rows:
  "top_rows a = top_rows b \<Longrightarrow> voxel_sizes a = voxel_sizes b"
  by (auto simp: voxel_sizes_def top_rows_def split: prod.splits)

lemma reconciled_fields:
  "qform_code (header (reconciled v0 v1)) = qform_code (header v0)"
  "sform_code (header (reconciled v0 v1)) = sform_code (header v0)"
  "other (header (reconciled v0 v1)) = other (header v0)"
  "data_dtype (header (reconciled v0 v1)) = UInt8"
  "srow (header (reconciled v0 v1)) = top_rows (affine_of v0)"
  "quatern (header (reconciled v0 v1)) = top_rows (affine_of v0)"
  "pixdim (header (reconciled v0 v1)) = voxel_sizes (affine_of v0)"
  "dataobj (reconciled v0 v1) = astype_uint8 (dataobj v1)"
  by (simp_all add: reconciled_def hdr_set_sform_def hdr_set_qform_def)

text \<open>The affine of the reconciled volume.\<close>

lemma affine_of_reconciled_coded:
  assumes "sform_code (header v0) \<noteq> 0 \<or> qform_code (header v0) \<noteq> 0"
  shows "affine_of (reconciled v0 v1) = affine_of v0"
proof (cases "sform_code (header v0) \<noteq> 0")
  case True
  then have a: "affine_of v0 = get_sform (header v0)"
    by (simp add: affine_of_def get_best_affine_def)
  from True show ?thesis
    by (simp add: affine_of_def [of "reconciled v0 v1"] get_best_affine_def reconciled_fields)
      (simp add: a get_sform_def top_rows_def reconciled_fields split: prod.splits)
next
  case False
  with assms have q: "qform_code (header v0) \<noteq> 0" by simp
  with False have a: "affine_of v0 = get_qform (header v0)"
    by (simp add: affine_of_def get_best_affine_def)
  from False q show ?thesis
    by (simp add: affine_of_def [of "reconciled v0 v1"] get_best_affine_def reconciled_fields)
      (simp add: a get_qform_def top_rows_def reconciled_fields split: prod.splits)
qed

lemma affine_of_reconciled_plain:
  assumes "sform_code (header v0) = 0" "qform_code (header v0) = 0"
  shows "affine_of (reconciled v0 v1) =
     shape_zoom_affine (shape (dataobj v1)) (voxel_sizes (affine_of v0))"
proof -
  from assms have a: "affine_of v0 = get_base_affine (shape (dataobj v0)) (header v0)"
    by (simp add: affine_of_def get_best_affine_def)
  have d: "decomposable (affine_of v0)"
    by (simp only: a base_affine_decomposable)
  have "get_zooms (header (reconciled v0 v1)) = voxel_sizes (affine_of v0)"
    using get_zooms_voxel_sizes [OF d]
    by (simp add: get_zooms_def reconciled_fields)
  with assms show ?thesis
    by (simp add: affine_of_def [of "reconciled v0 v1"] get_best_affine_def get_base_affine_def
        reconciled_fields astype_uint8_shape)
qed

lemma affine_of_reconciled_same_shape:
  assumes "shape (dataobj v1) = shape (dataobj v0)"
  shows "affine_of (reconciled v0 v1) = affine_of v0"
proof (cases "sform_code (header v0) \<noteq> 0 \<or> qform_code (header v0) \<noteq> 0")
  case True
  then show ?thesis by (rule affine_of_reconciled_coded)
next
  case False
  then have z: "sform_code (header v0) = 0" "qform_code (header v0) = 0" by simp_all
  then have a: "affine_of v0 = get_base_affine (shape (dataobj v0)) (header v0)"
    by (simp add: affine_of_def get_best_affine_def)
  show ?thesis
    by (simp only: affine_of_reconciled_plain [OF z] assms) (simp only: a base_affine_stable)
qed

lemma reconciled_again: "reconciled v0 (reconciled v0 v1) = reconciled v0 v1"
  by (simp add: reconciled_def astype_uint8_idem)

lemma reconciled_self: "reconciled (reconciled v v) (reconciled v v) = reconciled v v"
proof -
  have s: "shape (dataobj v) = shape (dataobj v)" ..
  have a: "affine_of (reconciled v v) = affine_of v"
    by (rule affine_of_reconciled_same_shape) simp
  show ?thesis
    by (simp add: reconciled_def [of "reconciled v v"] a reconciled_fields astype_uint8_idem)
      (simp add: reconciled_def hdr_set_sform_def hdr_set_qform_def)
qed

lemma decomposable_reconciled_self:
  "decomposable (affine_of (reconciled v v)) = decomposable (affine_of v)"
  by (simp add: affine_of_reconciled_same_shape)

lemma nib_load_Inr:
  "nib_load st p = Inr img \<longleftrightarrow>
     stat_fault st p = None \<and> (\<exists>v. files st p = Some (Volume v) \<and> img = loaded v)"
  by (auto simp: nib_load_def split: option.splits entry.splits)

lemma nib_load_loaded:
  "files st p = Some (Volume v) \<Longrightarrow> stat_fault st p = None \<Longrightarrow> nib_load st p = Inr (loaded v)"
  by (simp add: nib_load_def)

lemma loaded_fields [simp]:
  "dataobj (loaded v) = dataobj v" "header (loaded v) = header v"
  "affine (loaded v) = affine_of v"
  by (simp_all add: loaded_def)

lemma Nifti1Image_decomposable:
  "decomposable A \<Longrightarrow>
   Nifti1Image D A H =
     Inr \<lparr>dataobj = D,
          header = (if A = get_best_affine (shape D) H then H
                    else hdr_set_qform (hdr_set_sform H A 2) A 0),
          affine = A\<rparr>"
  by (simp add: Nifti1Image_def update_header_def)

lemma Nifti1Image_raises:
  "\<not> decomposable A \<Longrightarrow>
   Nifti1Image D A H = Inr \<lparr>dataobj = D, header = H, affine = A\<rparr>
   \<or> Nifti1Image D A H = Inl (HeaderDataError ''Could not decompose affine'')"
  by (simp add: Nifti1Image_def update_header_def)

lemma set_qform_decomposable:
  "decomposable A \<Longrightarrow>
   set_qform img A c =
     Inr (img\<lparr>header := hdr_set_qform (header img) A c,
              affine := get_best_affine (shape (dataobj img)) (hdr_set_qform (header img) A c)\<rparr>)"
  by (simp add: set_qform_def Let_def)

lemma set_qform_raises:
  "\<not> decomposable A \<Longrightarrow>
   set_qform img A c = Inl (HeaderDataError ''Could not decompose affine'')"
  by (simp add: set_qform_def)

lemma header_pipeline:
  "hdr_set_sform (hdr_set_qform
      ((if c then H else hdr_set_qform (hdr_set_sform H A 2) A 0)\<lparr>data_dtype := UInt8\<rparr>) A q) A s
   = hdr_set_sform (hdr_set_qform (H\<lparr>data_dtype := UInt8\<rparr>) A q) A s"
  by (simp add: hdr_set_sform_def hdr_set_qform_def)

lemma loaded_reconciled:
  "loaded (reconciled v0 v1) =
     \<lparr>dataobj = astype_uint8 (dataobj v1),
      header = hdr_set_sform (hdr_set_qform ((header v0)\<lparr>data_dtype := UInt8\<rparr>) (affine_of v0)
                 (qform_code (header v0))) (affine_of v0) (sform_code (header v0)),
      affine = get_best_affine (shape (astype_uint8 (dataobj v1)))
                 (hdr_set_sform (hdr_set_qform ((header v0)\<lparr>data_dtype := UInt8\<rparr>) (affine_of v0)
                 (qform_code (header v0))) (affine_of v0) (sform_code (header v0)))\<rparr>"
  by (simp add: loaded_def reconciled_def affine_of_def)

lemma fix_metadata_loaded:
  assumes "files st image_0000_path = Some (Volume v0)"
    and "files st image_0001_path = Some (Volume v1)"
    and "stat_fault st image_0000_path = None"
    and "stat_fault st image_0001_path = None"
  shows "fix_metadata image_0000_path image_0001_path overwrite st =
     (if decomposable (affine_of v0) then
        (case save_fixed (loaded (reconciled v0 v1)) (loaded v1) image_0001_path overwrite st of
           (Inl e, st') \<Rightarrow> (Inl e, st')
         | (Inr (Some r), st') \<Rightarrow> (Inr r, st')
         | (Inr None, st') \<Rightarrow> (Inr False, st'))
      else (Inl (HeaderDataError ''Could not decompose affine''), st))"
proof -
  have l0: "nib_load st image_0000_path = Inr (loaded v0)"
    and l1: "nib_load st image_0001_path = Inr (loaded v1)"
    using assms by (simp_all add: nib_load_loaded)
  show ?thesis
  proof (cases "decomposable (affine_of v0)")
    case False
    from Nifti1Image_raises [OF False, of "astype_uint8 (dataobj v1)" "header v0"]
    show ?thesis
      by (elim disjE) (simp_all add: fix_metadata_def l0 l1 Let_def set_qform_raises False)
  next
    case True
    then show ?thesis
      by (simp add: fix_metadata_def l0 l1 Let_def Nifti1Image_decomposable
          set_qform_decomposable set_sform_def set_data_dtype_def header_pipeline
          loaded_reconciled split del: if_split)
  qed
qed

section \<open>Properties of fix\_metadata\<close>

lemma fix_metadata_not_loaded:
  assumes "nib_load st image_0000_path = Inl e"
  shows "fix_metadata image_0000_path image_0001_path overwrite st = (Inl e, st)"
  using assms by (simp add: fix_metadata_def)

lemma fix_metadata_not_loaded2:
  assumes "nib_load st image_0000_path = Inr v0" "nib_load st image_0001_path = Inl e"
  shows "fix_metadata image_0000_path image_0001_path overwrite st = (Inl e, st)"
  using assms by (simp add: fix_metadata_def)

lemma save_fixed_overwrite:
  "save_fixed (loaded fixed) (loaded v1) p True st =
     (case write_fault st p of
        Some e \<Rightarrow> (Inl e, st)
      | None \<Rightarrow> (Inr (Some True), st\<lparr>files := (files st)(p \<mapsto> Volume fixed)\<rparr>))"
  by (simp add: save_fixed_def nib_save_loaded split: option.splits)

lemma save_fixed_backup:
  "save_fixed (loaded fixed) (loaded v1) p False st =
     (case write_fault st (backup_path p) of
        Some e \<Rightarrow> (Inl e, st)
      | None \<Rightarrow>
          (case write_fault st p of
             Some e \<Rightarrow> (Inl e, st\<lparr>files := (files st)(backup_path p \<mapsto> Volume v1)\<rparr>)
           | None \<Rightarrow> (Inr (Some True),
               st\<lparr>files := (files st)(backup_path p \<mapsto> Volume v1, p \<mapsto> Volume fixed)\<rparr>)))"
  by (simp add: save_fixed_def nib_save_loaded split: option.splits)

lemma save_fixed_returns: "fst (save_fixed fixed img_0001 p overwrite st) \<noteq> Inr None"
  by (simp add: save_fixed_def split: prod.splits sum.splits)

text \<open>A run returns exactly when both files load, the affine of the reference can be
  decomposed and the writes are accepted; the file system afterwards is then known.\<close>

lemma fix_metadata_success_iff:
  "fix_metadata r d ow st = (Inr res, st') \<longleftrightarrow>
     (\<exists>v0 v1.
         files st r = Some (Volume v0)
       \<and> files st d = Some (Volume v1)
       \<and> stat_fault st r = None
       \<and> stat_fault st d = None
       \<and> decomposable (affine_of v0)
       \<and> res
       \<and> write_fault st d = None
       \<and> (ow \<or> write_fault st (backup_path d) = None)
       \<and> st' = (if ow
                then st\<lparr>files := (files st)(d \<mapsto> Volume (reconciled v0 v1))\<rparr>
                else st\<lparr>files := (files st)(backup_path d \<mapsto> Volume v1,
                                            d \<mapsto> Volume (reconciled v0 v1))\<rparr>))"
  (is "?L \<longleftrightarrow> ?R")
proof
  assume ?L
  then obtain i0 where l0: "nib_load st r = Inr i0"
    by (cases "nib_load st r") (auto simp: fix_metadata_def)
  from \<open>?L\<close> l0 obtain i1 where l1: "nib_load st d = Inr i1"
    by (cases "nib_load st d") (auto simp: fix_metadata_def)
  from l0 obtain v0 where f0: "files st r = Some (Volume v0)" and s0: "stat_fault st r = None"
    unfolding nib_load_Inr by (elim exE conjE) (rule that; assumption)
  from l1 obtain v1 where f1: "files st d = Some (Volume v1)" and s1: "stat_fault st d = None"
    unfolding nib_load_Inr by (elim exE conjE) (rule that; assumption)
  from \<open>?L\<close> have dec: "decomposable (affine_of v0)"
    unfolding fix_metadata_loaded [OF f0 f1 s0 s1] by (simp split: if_splits)
  from \<open>?L\<close> have "res \<and> write_fault st d = None \<and> (ow \<or> write_fault st (backup_path d) = None)
       \<and> st' = (if ow
                then st\<lparr>files := (files st)(d \<mapsto> Volume (reconciled v0 v1))\<rparr>
                else st\<lparr>files := (files st)(backup_path d \<mapsto> Volume v1,
                                            d \<mapsto> Volume (reconciled v0 v1))\<rparr>)"
    unfolding fix_metadata_loaded [OF f0 f1 s0 s1]
    by (cases ow) (auto simp: dec save_fixed_overwrite save_fixed_backup split: option.splits)
  with f0 f1 s0 s1 dec show ?R
    by (intro exI [of _ v0] exI [of _ v1]) simp
next
  assume ?R
  then obtain v0 v1 where f0: "files st r = Some (Volume v0)"
    and f1: "files st d = Some (Volume v1)"
    and s0: "stat_fault st r = None" and s1: "stat_fault st d = None"
    and dec: "decomposable (affine_of v0)"
    and rest: "res" "write_fault st d = None" "ow \<or> write_fault st (backup_path d) = None"
      "st' = (if ow
                then st\<lparr>files := (files st)(d \<mapsto> Volume (reconciled v0 v1))\<rparr>
                else st\<lparr>files := (files st)(backup_path d \<mapsto> Volume v1,
                                            d \<mapsto> Volume (reconciled v0 v1))\<rparr>)"
    by (elim exE conjE) (rule that; assumption)
  from rest show ?L
    unfolding fix_metadata_loaded [OF f0 f1 s0 s1]
    by (cases ow) (auto simp: dec save_fixed_overwrite save_fixed_backup split: option.splits)
qed

lemma fix_metadata_success:
  assumes "fix_metadata image_0000_path image_0001_path overwrite st = (Inr r, st')"
  shows "\<exists>v0 v1.
           files st image_0000_path = Some (Volume v0)
         \<and> files st image_0001_path = Some (Volume v1)
         \<and> decomposable (affine_of v0)
         \<and> r
         \<and> st' = (if overwrite
                  then st\<lparr>files := (files st)(image_0001_path \<mapsto> Volume (reconciled v0 v1))\<rparr>
                  else st\<lparr>files := (files st)(backup_path image_0001_path \<mapsto> Volume v1,
                                              image_0001_path \<mapsto> Volume (reconciled v0 v1))\<rparr>)"
proof -
  from assms obtain v0 v1 where
    "files st image_0000_path = Some (Volume v0)"
    "files st image_0001_path = Some (Volume v1)"
    "decomposable (affine_of v0)" "r"
    "st' = (if overwrite
                  then st\<lparr>files := (files st)(image_0001_path \<mapsto> Volume (reconciled v0 v1))\<rparr>
                  else st\<lparr>files := (files st)(backup_path image_0001_path \<mapsto> Volume v1,
                                              image_0001_path \<mapsto> Volume (reconciled v0 v1))\<rparr>)"
    unfolding fix_metadata_success_iff by (elim exE conjE) (rule that; assumption)
  then show ?thesis
    by (intro exI [of _ v0] exI [of _ v1]) simp
qed

lemma img_0001_path_of_fields:
  "parent (img_0001_path_of p) = parent p"
  "name (img_0001_path_of p) = py_replace ''_0000.nii.gz'' ''_0001.nii.gz'' (name p)"
  by (simp_all add: img_0001_path_of_def path_div_def)

lemma img_0001_path_of_suffix:
  assumes "suffix ''_0000.nii.gz'' (name p)"
  shows "suffix ''_0001.nii.gz'' (name (img_0001_path_of p))"
    and "length (name (img_0001_path_of p)) = length (name p)"
    and "img_0001_path_of p \<noteq> p"
proof -
  show "suffix ''_0001.nii.gz'' (name (img_0001_path_of p))"
    unfolding img_0001_path_of_fields
    by (rule py_replace_suffix [OF _ _ assms]) simp_all
  show "length (name (img_0001_path_of p)) = length (name p)"
    unfolding img_0001_path_of_fields
    by (rule py_replace_length_same) simp_all
  from assms have "sublist ''_0000.nii.gz'' (name p)" by (rule suffix_imp_sublist)
  then have "py_replace ''_0000.nii.gz'' ''_0001.nii.gz'' (name p) \<noteq> name p"
    using py_replace_changes [of "''_0000.nii.gz''" "''_0001.nii.gz''" "name p"] by simp
  then have "name (img_0001_path_of p) \<noteq> name p"
    by (simp add: img_0001_path_of_fields)
  then show "img_0001_path_of p \<noteq> p" by auto
qed


lemma backup_path_parent: "parent (backup_path d) = parent d"
  by (simp add: backup_path_def path_div_def)

lemma backup_path_suffix:
  assumes "suffix ''.nii.gz'' (name d)"
  shows "suffix ''_backup.nii.gz'' (name (backup_path d))"
    and "length (name d) + 7 \<le> length (name (backup_path d))"
proof -
  from assms obtain b where b: "name d = b @ ''.nii.gz''" by (auto simp: suffix_def)
  then have "name d = (b @ ''.nii'') @ ''.gz''" by simp
  then have st: "stem d = b @ ''.nii''" by (rule stem_gz) simp
  have suf: "suffix ''.nii'' (stem d)" by (simp add: st suffix_def)
  have "suffix ''_backup.nii'' (py_replace ''.nii'' ''_backup.nii'' (stem d))"
    by (rule py_replace_suffix [OF _ _ suf]) simp_all
  then have "suffix (''_backup.nii'' @ ''.gz'') (py_replace ''.nii'' ''_backup.nii'' (stem d) @ ''.gz'')"
    by (simp only: same_suffix_suffix)
  then show "suffix ''_backup.nii.gz'' (name (backup_path d))"
    by (simp add: backup_path_def path_div_def)
  from suf have "sublist ''.nii'' (stem d)" by (rule suffix_imp_sublist)
  then have "length (stem d) + (length ''_backup.nii'' - length ''.nii'')
      \<le> length (py_replace ''.nii'' ''_backup.nii'' (stem d))"
    using py_replace_length_grow [of "''.nii''" "''_backup.nii''" "stem d"] by simp
  with st b show "length (name d) + 7 \<le> length (name (backup_path d))"
    by (simp add: backup_path_def path_div_def)
qed

lemma backup_path_neq:
  assumes "suffix ''.nii.gz'' (name d)" "length (name p) \<le> length (name d)"
  shows "backup_path d \<noteq> p"
proof
  assume "backup_path d = p"
  then have "length (name (backup_path d)) = length (name p)" by simp
  with backup_path_suffix(2) [OF assms(1)] assms(2) show False by simp
qed

lemma suffix_nii_gz:
  assumes "suffix ''_0001.nii.gz'' s"
  shows "suffix ''.nii.gz'' s"
proof -
  have "suffix ''.nii.gz'' ''_0001.nii.gz''" by (simp add: suffix_def)
  from this assms show ?thesis by (rule suffix_order.trans)
qed

lemma convention_paths:
  assumes "suffix ''_0000.nii.gz'' (name p)"
  shows "img_0001_path_of p \<noteq> p"
    and "backup_path (img_0001_path_of p) \<noteq> p"
    and "backup_path (img_0001_path_of p) \<noteq> img_0001_path_of p"
proof -
  note s = img_0001_path_of_suffix [OF assms]
  from s(1) have g: "suffix ''.nii.gz'' (name (img_0001_path_of p))" by (rule suffix_nii_gz)
  show "img_0001_path_of p \<noteq> p" by (rule s(3))
  show "backup_path (img_0001_path_of p) \<noteq> p"
    by (rule backup_path_neq [OF g]) (simp add: s(2))
  show "backup_path (img_0001_path_of p) \<noteq> img_0001_path_of p"
    by (rule backup_path_neq [OF g]) simp
qed

text \<open>What a run leaves of the file system, whatever its outcome.\<close>

lemma save_fixed_frame:
  assumes "q \<noteq> d" "ow \<or> q \<noteq> backup_path d"
  shows "files (snd (save_fixed (loaded fixed) (loaded v1) d ow st)) q = files st q"
  using assms by (cases ow) (auto simp: save_fixed_overwrite save_fixed_backup split: option.splits)

lemma fix_metadata_snd:
  "snd (fix_metadata r d ow st) = st \<or>
   (\<exists>v0 v1. files st r = Some (Volume v0) \<and> files st d = Some (Volume v1)
      \<and> snd (fix_metadata r d ow st)
          = snd (save_fixed (loaded (reconciled v0 v1)) (loaded v1) d ow st))"
proof (cases "nib_load st r")
  case (Inl e)
  then show ?thesis by (simp add: fix_metadata_not_loaded)
next
  case (Inr i0)
  note l0 = this
  show ?thesis
  proof (cases "nib_load st d")
    case (Inl e)
    with l0 show ?thesis by (simp add: fix_metadata_not_loaded2)
  next
    case (Inr i1)
    from l0 obtain v0 where f0: "files st r = Some (Volume v0)" and s0: "stat_fault st r = None"
      unfolding nib_load_Inr by (elim exE conjE) (rule that; assumption)
    from Inr obtain v1 where f1: "files st d = Some (Volume v1)" and s1: "stat_fault st d = None"
      unfolding nib_load_Inr by (elim exE conjE) (rule that; assumption)
    show ?thesis
    proof (cases "decomposable (affine_of v0)")
      case False
      then show ?thesis by (simp add: fix_metadata_loaded [OF f0 f1 s0 s1])
    next
      case True
      then have "snd (fix_metadata r d ow st)
          = snd (save_fixed (loaded (reconciled v0 v1)) (loaded v1) d ow st)"
        unfolding fix_metadata_loaded [OF f0 f1 s0 s1]
        by (auto split: prod.splits sum.splits option.splits)
      with f0 f1 show ?thesis by (intro disjI2 exI [of _ v0] exI [of _ v1]) simp
    qed
  qed
qed

lemma fix_metadata_frame:
  assumes "q \<noteq> d" "ow \<or> q \<noteq> backup_path d"
  shows "files (snd (fix_metadata r d ow st)) q = files st q"
  using fix_metadata_snd [of r d ow st] save_fixed_frame [OF assms] by auto

lemma fix_metadata_wrapper_snd:
  "snd (fix_metadata_wrapper p ow st) = st \<or>
   snd (fix_metadata_wrapper p ow st) = snd (fix_metadata p (img_0001_path_of p) ow st)"
  by (auto simp: fix_metadata_wrapper_def Let_def split: prod.splits sum.splits)

lemma fix_metadata_wrapper_frame:
  assumes "suffix ''_0000.nii.gz'' (name p)"
  shows "files (snd (fix_metadata_wrapper p ow st)) p = files st p"
proof -
  note c = convention_paths [OF assms]
  have "files (snd (fix_metadata p (img_0001_path_of p) ow st)) p = files st p"
    by (rule fix_metadata_frame) (use c in auto)
  with fix_metadata_wrapper_snd [of p ow st] show ?thesis by auto
qed

subsection \<open>The three ways of the per-pair function\<close>

lemma fix_metadata_wrapper_raises:
  "path_exists st (img_0001_path_of p) = Inl e \<Longrightarrow>
   fix_metadata_wrapper p ow st = (Inl e, st)"
  by (simp add: fix_metadata_wrapper_def Let_def)

lemma fix_metadata_wrapper_missing:
  "path_exists st (img_0001_path_of p) = Inr False \<Longrightarrow>
   fix_metadata_wrapper p ow st = (Inr (''missing'', Some (name p)), st)"
  by (simp add: fix_metadata_wrapper_def Let_def)

lemma fix_metadata_wrapper_present:
  "path_exists st (img_0001_path_of p) = Inr True \<Longrightarrow>
   fix_metadata_wrapper p ow st =
     (case fix_metadata p (img_0001_path_of p) ow st of
        (Inr r, st') \<Rightarrow> (Inr (''success'', None), st')
      | (Inl e, st') \<Rightarrow>
          (Inr (''error'', Some (name (img_0001_path_of p) @ '': '' @ str e)), st'))"
  by (simp add: fix_metadata_wrapper_def Let_def)

text \<open>
  Once \<open>exists\<close> has returned, no exception leaves the per-pair function: those of
  \<open>fix_metadata\<close> become the status \<open>error\<close>, with the name of the dependent and \<open>str(e)\<close>.
\<close>

lemma fix_metadata_wrapper_catches:
  assumes "path_exists st (img_0001_path_of p) = Inr found"
  shows "\<exists>status msg. fst (fix_metadata_wrapper p ow st) = Inr (status, msg)
           \<and> status \<in> {''success'', ''missing'', ''error''}"
    and "found \<Longrightarrow> fix_metadata p (img_0001_path_of p) ow st = (Inl e, st')
           \<Longrightarrow> fix_metadata_wrapper p ow st =
             (Inr (''error'', Some (name (img_0001_path_of p) @ '': '' @ str e)), st')"
proof -
  show "\<exists>status msg. fst (fix_metadata_wrapper p ow st) = Inr (status, msg)
           \<and> status \<in> {''success'', ''missing'', ''error''}"
  proof (cases found)
    case False
    with assms show ?thesis by (simp add: fix_metadata_wrapper_missing)
  next
    case True
    with assms show ?thesis
      by (simp add: fix_metadata_wrapper_present split: prod.splits sum.splits)
  qed
  show "found \<Longrightarrow> fix_metadata p (img_0001_path_of p) ow st = (Inl e, st')
           \<Longrightarrow> fix_metadata_wrapper p ow st =
             (Inr (''error'', Some (name (img_0001_path_of p) @ '': '' @ str e)), st')"
    using assms by (simp add: fix_metadata_wrapper_present)
qed

subsection \<open>The example directory\<close>


lemma example_img_0001_path: "img_0001_path_of example_ref = example_dep"
  by code_simp

lemma example_backup_path: "backup_path example_dep = example_backup"
  by code_simp

lemma example_paths_distinct: "example_ref \<noteq> example_dep" "example_ref \<noteq> example_backup" "example_dep \<noteq> example_backup"
  by (simp_all add: example_ref_def example_dep_def example_backup_def)

lemma example_affines:
  "affine_of example_ref_vol = ((1, 0, 0, 0), (0, 1, 0, 0), (0, 0, 1, 0), (0, 0, 0, 1))"
  "affine_of example_dep_vol = ((2, 0, 0, 5), (0, 2, 0, 5), (0, 0, 2, 5), (0, 0, 0, 1))"
  "affine_of example_plain_ref_vol = ((- 1, 0, 0, 1), (0, 1, 0, 0), (0, 0, 1, 0), (0, 0, 0, 1))"
  by (simp_all add: affine_of_def get_best_affine_def get_sform_def get_base_affine_def
      get_zooms_def zoom_fix_def shape_zoom_affine_def Let_def
      example_ref_vol_def example_dep_vol_def example_plain_ref_vol_def)

lemma example_decomposable:
  "decomposable (affine_of example_ref_vol)"
  "decomposable (affine_of example_dep_vol)"
  "decomposable (affine_of example_plain_ref_vol)"
  by (simp_all add: example_affines decomposable_def voxel_sizes_def)

lemma example_run_overwrite: "fix_metadata example_ref example_dep True example_fs =
   (Inr True, example_fs\<lparr>files := (files example_fs)(example_dep \<mapsto>
       Volume (reconciled example_ref_vol example_dep_vol))\<rparr>)"
  unfolding fix_metadata_success_iff
  by (intro exI [of _ example_ref_vol] exI [of _ example_dep_vol])
    (simp add: example_fs_def example_paths_distinct example_decomposable)

lemma example_run_backup: "fix_metadata example_ref example_dep False example_fs =
   (Inr True, example_fs\<lparr>files := (files example_fs)(example_backup \<mapsto> Volume example_dep_vol,
       example_dep \<mapsto> Volume (reconciled example_ref_vol example_dep_vol))\<rparr>)"
  unfolding fix_metadata_success_iff
  by (intro exI [of _ example_ref_vol] exI [of _ example_dep_vol])
    (simp add: example_fs_def example_paths_distinct example_decomposable example_backup_path)

lemma example_plain_run: "fix_metadata example_ref example_dep True example_fs_plain =
   (Inr True, example_fs_plain\<lparr>files := (files example_fs_plain)(example_dep \<mapsto>
       Volume (reconciled example_plain_ref_vol example_long_dep_vol))\<rparr>)"
  unfolding fix_metadata_success_iff
  by (intro exI [of _ example_plain_ref_vol] exI [of _ example_long_dep_vol])
    (simp add: example_fs_plain_def example_paths_distinct example_decomposable)

lemma example_corrupt_run:
  "fix_metadata example_ref example_dep True example_fs_corrupt =
     (Inl (ImageFileError ''not a NIfTI file''), example_fs_corrupt)"
  by (simp add: fix_metadata_def nib_load_def example_fs_corrupt_def example_paths_distinct)

section \<open>The claims about fix\_metadata\<close>

text \<open>
  What a run that returns gives the dependent of the reference's geometry. The qform
  and sform codes are those of the reference. The affine is the affine of the
  reference when one of the codes is not 0, or when the two volumes have the same
  shape. When both codes are 0 the file holds no transform, and the affine is the base
  affine of the dependent's own shape with the voxel sizes of the reference.
\<close>

lemma fix_metadata_codes_affine:
  assumes "fix_metadata image_0000_path image_0001_path overwrite st = (Inr r, st')"
  shows "\<exists>img_0000 img_0001 fixed.
           files st image_0000_path = Some (Volume img_0000)
         \<and> files st image_0001_path = Some (Volume img_0001)
         \<and> files st' image_0001_path = Some (Volume fixed)
         \<and> qform_code (header fixed) = qform_code (header img_0000)
         \<and> sform_code (header fixed) = sform_code (header img_0000)
         \<and> (sform_code (header img_0000) \<noteq> 0 \<or> qform_code (header img_0000) \<noteq> 0
              \<or> shape (dataobj img_0001) = shape (dataobj img_0000)
            \<longrightarrow> affine_of fixed = affine_of img_0000)
         \<and> (sform_code (header img_0000) = 0 \<and> qform_code (header img_0000) = 0
            \<longrightarrow> affine_of fixed =
                  shape_zoom_affine (shape (dataobj img_0001)) (voxel_sizes (affine_of img_0000)))"
proof -
  from fix_metadata_success [OF assms] obtain v0 v1 where
    f0: "files st image_0000_path = Some (Volume v0)" and
    f1: "files st image_0001_path = Some (Volume v1)" and
    st': "st' = (if overwrite
                  then st\<lparr>files := (files st)(image_0001_path \<mapsto> Volume (reconciled v0 v1))\<rparr>
                  else st\<lparr>files := (files st)(backup_path image_0001_path \<mapsto> Volume v1,
                                              image_0001_path \<mapsto> Volume (reconciled v0 v1))\<rparr>)"
    by (elim exE conjE) (rule that; assumption)
  from st' have w: "files st' image_0001_path = Some (Volume (reconciled v0 v1))"
    by simp
  have a: "sform_code (header v0) \<noteq> 0 \<or> qform_code (header v0) \<noteq> 0
              \<or> shape (dataobj v1) = shape (dataobj v0)
            \<longrightarrow> affine_of (reconciled v0 v1) = affine_of v0"
    using affine_of_reconciled_coded [of v0 v1] affine_of_reconciled_same_shape [of v1 v0]
    by auto
  have b: "sform_code (header v0) = 0 \<and> qform_code (header v0) = 0
            \<longrightarrow> affine_of (reconciled v0 v1) =
                  shape_zoom_affine (shape (dataobj v1)) (voxel_sizes (affine_of v0))"
    using affine_of_reconciled_plain [of v0 v1] by simp
  show ?thesis
    by (intro exI [of _ v0] exI [of _ v1] exI [of _ "reconciled v0 v1"] conjI f0 f1 w
        reconciled_fields(1) reconciled_fields(2) a b)
qed

text \<open>
  C1 fails on the code. The reference \<open>caseA_0000.nii.gz\<close> has the shape (3, 1, 1),
  voxel sizes 1 and both codes 0; the dependent has the shape (5, 1, 1). The run returns
  \<open>True\<close>, and the codes written are those of the reference. The reference's affine has
  the offset 1 on the first axis; the affine of the file written has the offset 2:
  \<open>set_sform(ref_affine, code=0)\<close> leaves a header with both codes 0, and the affine of
  such a file is the base affine of its own shape.
\<close>

theorem fix_metadata_geometry_diverges:
  "files example_fs_plain example_ref = Some (Volume example_plain_ref_vol)
   \<and> fst (fix_metadata example_ref example_dep True example_fs_plain) = Inr True
   \<and> files (snd (fix_metadata example_ref example_dep True example_fs_plain)) example_dep
       = Some (Volume (reconciled example_plain_ref_vol example_long_dep_vol))
   \<and> qform_code (header (reconciled example_plain_ref_vol example_long_dep_vol)) = 0
   \<and> sform_code (header (reconciled example_plain_ref_vol example_long_dep_vol)) = 0
   \<and> affine_of example_plain_ref_vol
       = ((- 1, 0, 0, 1), (0, 1, 0, 0), (0, 0, 1, 0), (0, 0, 0, 1))
   \<and> affine_of (reconciled example_plain_ref_vol example_long_dep_vol)
       = ((- 1, 0, 0, 2), (0, 1, 0, 0), (0, 0, 1, 0), (0, 0, 0, 1))
   \<and> nib_load (snd (fix_metadata example_ref example_dep True example_fs_plain)) example_dep
       = Inr \<lparr>dataobj = \<lparr>shape = [5, 1, 1], dtype = UInt8, elems = [0, 1, 1, 0, 0]\<rparr>,
              header = header (reconciled example_plain_ref_vol example_long_dep_vol),
              affine = ((- 1, 0, 0, 2), (0, 1, 0, 0), (0, 0, 1, 0), (0, 0, 0, 1))\<rparr>"
proof -
  have z: "sform_code (header example_plain_ref_vol) = 0"
    "qform_code (header example_plain_ref_vol) = 0"
    by (simp_all add: example_plain_ref_vol_def)
  have f: "files example_fs_plain example_ref = Some (Volume example_plain_ref_vol)"
    by (simp add: example_fs_plain_def example_paths_distinct)
  have a: "affine_of (reconciled example_plain_ref_vol example_long_dep_vol)
       = ((- 1, 0, 0, 2), (0, 1, 0, 0), (0, 0, 1, 0), (0, 0, 0, 1))"
    by (simp add: affine_of_reconciled_plain [OF z] example_affines voxel_sizes_def
        shape_zoom_affine_def Let_def example_long_dep_vol_def)
  have d: "dataobj (reconciled example_plain_ref_vol example_long_dep_vol)
       = \<lparr>shape = [5, 1, 1], dtype = UInt8, elems = [0, 1, 1, 0, 0]\<rparr>"
    by (simp add: reconciled_fields astype_uint8_def example_long_dep_vol_def)
  have l: "nib_load (example_fs_plain\<lparr>files := (files example_fs_plain)(example_dep \<mapsto>
       Volume (reconciled example_plain_ref_vol example_long_dep_vol))\<rparr>) example_dep
       = Inr (loaded (reconciled example_plain_ref_vol example_long_dep_vol))"
    by (rule nib_load_loaded) (simp_all add: example_fs_plain_def)
  show ?thesis
    by (simp add: f example_plain_run l reconciled_fields(1) reconciled_fields(2) z
        example_affines a loaded_def d)
qed

text \<open>
  C2. Whenever \<open>fix_metadata\<close> returns, the voxels of the volume at the dependent path
  are the voxels of the volume that was there before, each cast to \<open>uint8\<close> (reduced
  modulo 256), in the same order and the same shape.
\<close>

theorem fix_metadata_voxels:
  assumes "fix_metadata image_0000_path image_0001_path overwrite st = (Inr r, st')"
  shows "\<exists>img_0001 fixed.
           files st image_0001_path = Some (Volume img_0001)
         \<and> files st' image_0001_path = Some (Volume fixed)
         \<and> elems (dataobj fixed) = map (\<lambda>x. x mod 256) (elems (dataobj img_0001))
         \<and> length (elems (dataobj fixed)) = length (elems (dataobj img_0001))
         \<and> (\<forall>i < length (elems (dataobj img_0001)).
               elems (dataobj fixed) ! i = elems (dataobj img_0001) ! i mod 256)
         \<and> shape (dataobj fixed) = shape (dataobj img_0001)
         \<and> dtype (dataobj fixed) = UInt8
         \<and> data_dtype (header fixed) = UInt8"
proof -
  from fix_metadata_success [OF assms] obtain v0 v1 where
    f1: "files st image_0001_path = Some (Volume v1)" and
    st': "st' = (if overwrite
                  then st\<lparr>files := (files st)(image_0001_path \<mapsto> Volume (reconciled v0 v1))\<rparr>
                  else st\<lparr>files := (files st)(backup_path image_0001_path \<mapsto> Volume v1,
                                              image_0001_path \<mapsto> Volume (reconciled v0 v1))\<rparr>)"
    by (elim exE conjE) (rule that; assumption)
  from st' have "files st' image_0001_path = Some (Volume (reconciled v0 v1))"
    by simp
  with f1 show ?thesis
    by (intro exI [of _ v1] exI [of _ "reconciled v0 v1"])
      (simp add: reconciled_fields astype_uint8_def)
qed

theorem fix_metadata_voxels_witness:
  "fix_metadata example_ref example_dep False example_fs =
     (Inr True, example_fs\<lparr>files := (files example_fs)(example_backup \<mapsto> Volume example_dep_vol,
        example_dep \<mapsto> Volume (reconciled example_ref_vol example_dep_vol))\<rparr>)
   \<and> elems (dataobj example_dep_vol) = [1, 257]
   \<and> (\<exists>fixed.
         files (example_fs\<lparr>files := (files example_fs)(example_backup \<mapsto> Volume example_dep_vol,
            example_dep \<mapsto> Volume (reconciled example_ref_vol example_dep_vol))\<rparr>) example_dep
           = Some (Volume fixed)
       \<and> elems (dataobj fixed) = [1, 1]
       \<and> shape (dataobj fixed) = [2, 1, 1]
       \<and> dtype (dataobj fixed) = UInt8)"
  using fix_metadata_voxels [OF example_run_backup] example_run_backup
  by (auto simp: example_fs_def example_dep_vol_def example_paths_distinct)

text \<open>
  C8. The \<open>if\<close> statement of lines 70 to 77 never lets control pass: each branch raises
  or returns. So \<open>fix_metadata\<close> never returns \<open>False\<close>: every result that is not an
  exception is \<open>True\<close>, and the last line is not reached.
\<close>

theorem fix_metadata_never_False:
  "fst (save_fixed fixed_img_0001 img_0001 image_0001_path overwrite st) \<noteq> Inr None
   \<and> fst (fix_metadata image_0000_path image_0001_path overwrite st) \<noteq> Inr False
   \<and> ((\<exists>e. fst (fix_metadata image_0000_path image_0001_path overwrite st) = Inl e)
      \<or> fst (fix_metadata image_0000_path image_0001_path overwrite st) = Inr True)"
proof
  show "fst (save_fixed fixed_img_0001 img_0001 image_0001_path overwrite st) \<noteq> Inr None"
    by (rule save_fixed_returns)
  show "fst (fix_metadata image_0000_path image_0001_path overwrite st) \<noteq> Inr False
      \<and> ((\<exists>e. fst (fix_metadata image_0000_path image_0001_path overwrite st) = Inl e)
         \<or> fst (fix_metadata image_0000_path image_0001_path overwrite st) = Inr True)"
  proof (cases "fst (fix_metadata image_0000_path image_0001_path overwrite st)")
    case (Inl e)
    then show ?thesis by simp
  next
    case (Inr b)
    then have "fix_metadata image_0000_path image_0001_path overwrite st
        = (Inr b, snd (fix_metadata image_0000_path image_0001_path overwrite st))"
      by (simp add: prod_eq_iff)
    then have b unfolding fix_metadata_success_iff by (elim exE conjE)
    with Inr show ?thesis by simp
  qed
qed

section \<open>The claims about the per-pair function\<close>

text \<open>
  C3 fails on the code. The test \<open>img_0001_path.exists()\<close> of line 23 stands before the
  \<open>try\<close> of line 26. The dependent \<open>caseA_0001.nii.gz\<close> is there, but its \<open>stat\<close> is
  refused with \<open>PermissionError\<close> (the directory may be listed and not searched):
  \<open>exists\<close> re-raises it, and the exception leaves \<open>_fix_metadata_wrapper\<close>; no status is
  returned, and no file is touched.
\<close>

theorem wrapper_exists_raises:
  "img_0001_path_of example_ref = example_dep
   \<and> files example_fs_denied example_dep = Some (Volume example_dep_vol)
   \<and> path_exists example_fs_denied example_dep
       = Inl (PermissionError ''[Errno 13] Permission denied'')
   \<and> fix_metadata_wrapper example_ref True example_fs_denied
       = (Inl (PermissionError ''[Errno 13] Permission denied''), example_fs_denied)"
proof -
  have e: "path_exists example_fs_denied (img_0001_path_of example_ref)
       = Inl (PermissionError ''[Errno 13] Permission denied'')"
    by (simp add: example_img_0001_path path_exists_def example_fs_denied_def)
  have f: "files example_fs_denied example_dep = Some (Volume example_dep_vol)"
    by (simp add: example_fs_denied_def)
  from e f show ?thesis
    by (simp add: example_img_0001_path fix_metadata_wrapper_raises [OF e])
qed




section \<open>The claims about the backup, the second run and the reference\<close>

text \<open>
  C5, as the code has it. \<open>main\<close> passes \<open>overwrite = args.no_backup\<close>, so a backup is
  kept exactly when \<open>overwrite\<close> is false. On a run that returns: without \<open>overwrite\<close>
  the original dependent volume is written to the backup path and then the reconciled
  volume to the dependent path, and nothing else changes; with \<open>overwrite\<close> only the
  dependent path changes. The backup path is in the directory of the dependent, its name
  the stem with every \<open>.nii\<close> replaced by \<open>_backup.nii\<close>, and \<open>.gz\<close> appended. For a
  dependent name ending in \<open>.nii.gz\<close> the backup name ends in \<open>_backup.nii.gz\<close>, the
  backup path is not the dependent path, and after the run it holds the original volume.
\<close>

theorem backup_spec:
  assumes "fix_metadata image_0000_path image_0001_path overwrite st = (Inr r, st')"
  shows "\<exists>img_0000 img_0001.
           files st image_0000_path = Some (Volume img_0000)
         \<and> files st image_0001_path = Some (Volume img_0001)
         \<and> (\<not> overwrite \<longrightarrow>
               st' = st\<lparr>files := (files st)
                       (backup_path image_0001_path \<mapsto> Volume img_0001,
                        image_0001_path \<mapsto> Volume (reconciled img_0000 img_0001))\<rparr>)
         \<and> (overwrite \<longrightarrow>
               st' = st\<lparr>files := (files st)
                       (image_0001_path \<mapsto> Volume (reconciled img_0000 img_0001))\<rparr>
             \<and> (\<forall>p. p \<noteq> image_0001_path \<longrightarrow> files st' p = files st p))
         \<and> parent (backup_path image_0001_path) = parent image_0001_path
         \<and> name (backup_path image_0001_path) =
             py_replace ''.nii'' ''_backup.nii'' (stem image_0001_path) @ ''.gz''
         \<and> (suffix ''.nii.gz'' (name image_0001_path) \<longrightarrow>
               suffix ''_backup.nii.gz'' (name (backup_path image_0001_path))
             \<and> backup_path image_0001_path \<noteq> image_0001_path
             \<and> (\<not> overwrite \<longrightarrow>
                   files st' (backup_path image_0001_path) = Some (Volume img_0001)))"
proof -
  from fix_metadata_success [OF assms] obtain v0 v1 where
    f0: "files st image_0000_path = Some (Volume v0)" and
    f1: "files st image_0001_path = Some (Volume v1)" and
    st': "st' = (if overwrite
                  then st\<lparr>files := (files st)(image_0001_path \<mapsto> Volume (reconciled v0 v1))\<rparr>
                  else st\<lparr>files := (files st)(backup_path image_0001_path \<mapsto> Volume v1,
                                              image_0001_path \<mapsto> Volume (reconciled v0 v1))\<rparr>)"
    by (elim exE conjE) (rule that; assumption)
  have nm: "name (backup_path image_0001_path) =
             py_replace ''.nii'' ''_backup.nii'' (stem image_0001_path) @ ''.gz''"
    by (simp add: backup_path_def path_div_def)
  have sfx: "suffix ''.nii.gz'' (name image_0001_path) \<longrightarrow>
               suffix ''_backup.nii.gz'' (name (backup_path image_0001_path))
             \<and> backup_path image_0001_path \<noteq> image_0001_path"
    using backup_path_suffix(1) [of image_0001_path]
      backup_path_neq [of image_0001_path image_0001_path]
    by simp
  have bk: "suffix ''.nii.gz'' (name image_0001_path) \<longrightarrow> \<not> overwrite \<longrightarrow>
      files st' (backup_path image_0001_path) = Some (Volume v1)"
    using sfx st' by simp
  from st' have a: "\<not> overwrite \<longrightarrow>
               st' = st\<lparr>files := (files st)
                       (backup_path image_0001_path \<mapsto> Volume v1,
                        image_0001_path \<mapsto> Volume (reconciled v0 v1))\<rparr>"
    by simp
  from st' have b: "overwrite \<longrightarrow>
               st' = st\<lparr>files := (files st)
                       (image_0001_path \<mapsto> Volume (reconciled v0 v1))\<rparr>
             \<and> (\<forall>p. p \<noteq> image_0001_path \<longrightarrow> files st' p = files st p)"
    by simp
  from sfx bk have c: "suffix ''.nii.gz'' (name image_0001_path) \<longrightarrow>
               suffix ''_backup.nii.gz'' (name (backup_path image_0001_path))
             \<and> backup_path image_0001_path \<noteq> image_0001_path
             \<and> (\<not> overwrite \<longrightarrow>
                   files st' (backup_path image_0001_path) = Some (Volume v1))"
    by blast
  show ?thesis
    by (intro exI [of _ v0] exI [of _ v1] conjI f0 f1 a b backup_path_parent nm c)
qed

theorem backup_spec_witness:
  "fix_metadata example_ref example_dep False example_fs =
     (Inr True, example_fs\<lparr>files := (files example_fs)(example_backup \<mapsto> Volume example_dep_vol,
        example_dep \<mapsto> Volume (reconciled example_ref_vol example_dep_vol))\<rparr>)
   \<and> suffix ''.nii.gz'' (name example_dep)
   \<and> name (backup_path example_dep) = ''caseA_0001_backup.nii.gz''
   \<and> parent (backup_path example_dep) = ''imagesTr''
   \<and> files (example_fs\<lparr>files := (files example_fs)(example_backup \<mapsto> Volume example_dep_vol,
        example_dep \<mapsto> Volume (reconciled example_ref_vol example_dep_vol))\<rparr>)
        (backup_path example_dep) = Some (Volume example_dep_vol)
   \<and> files example_fs (backup_path example_dep) = None
   \<and> fix_metadata example_ref example_dep True example_fs =
     (Inr True, example_fs\<lparr>files := (files example_fs)(example_dep \<mapsto>
        Volume (reconciled example_ref_vol example_dep_vol))\<rparr>)
   \<and> files (example_fs\<lparr>files := (files example_fs)(example_dep \<mapsto>
        Volume (reconciled example_ref_vol example_dep_vol))\<rparr>) (backup_path example_dep) = None"
proof -
  have s: "suffix ''.nii.gz'' (name example_dep)"
    by (simp add: example_dep_def suffix_def)
  have n: "name (backup_path example_dep) = ''caseA_0001_backup.nii.gz''"
    by (simp add: example_backup_path example_backup_def)
  have p: "parent (backup_path example_dep) = ''imagesTr''"
    by (simp add: example_backup_path example_backup_def)
  have ne: "backup_path example_dep \<noteq> example_dep"
    by (simp add: example_backup_path example_paths_distinct [symmetric])
  have b0: "files example_fs (backup_path example_dep) = None"
    by (simp add: example_backup_path example_fs_def example_paths_distinct [symmetric])
  have f: "files example_fs example_dep = Some (Volume example_dep_vol)"
    by (simp add: example_fs_def)
  from backup_spec [OF example_run_backup] s f
  have a: "files (example_fs\<lparr>files := (files example_fs)(example_backup \<mapsto> Volume example_dep_vol,
        example_dep \<mapsto> Volume (reconciled example_ref_vol example_dep_vol))\<rparr>)
        (backup_path example_dep) = Some (Volume example_dep_vol)"
    by auto
  from backup_spec [OF example_run_overwrite]
  have "\<forall>p. p \<noteq> example_dep \<longrightarrow>
     files (example_fs\<lparr>files := (files example_fs)(example_dep \<mapsto>
        Volume (reconciled example_ref_vol example_dep_vol))\<rparr>) p = files example_fs p"
    by auto
  with ne b0
  have c: "files (example_fs\<lparr>files := (files example_fs)(example_dep \<mapsto>
        Volume (reconciled example_ref_vol example_dep_vol))\<rparr>) (backup_path example_dep) = None"
    by metis
  show ?thesis
    by (intro conjI example_run_backup s n p a b0 example_run_overwrite c)
qed

text \<open>
  C5 as stated fails for dependent names that do not end in \<open>.nii.gz\<close>: the backup of
  \<open>caseA_0001.nii\<close> goes to \<open>caseA_0001.gz\<close>, a name with no mark of a backup, and the
  backup path of \<open>caseA_0001.img.gz\<close> is that path itself.
\<close>

theorem backup_name_counterexample:
  "backup_path \<lparr>parent = ''imagesTr'', name = ''caseA_0001.nii''\<rparr>
     = \<lparr>parent = ''imagesTr'', name = ''caseA_0001.gz''\<rparr>
   \<and> \<not> sublist ''backup'' ''caseA_0001.gz''
   \<and> backup_path \<lparr>parent = ''imagesTr'', name = ''caseA_0001.img.gz''\<rparr>
     = \<lparr>parent = ''imagesTr'', name = ''caseA_0001.img.gz''\<rparr>"
  by code_simp

text \<open>
  C7, as the code has it. When the reference path is not the dependent path and, if a
  backup is written, not the backup path either, \<open>fix_metadata\<close> leaves the file at the
  reference path as it was, whatever the outcome. This is so for every reference whose
  name ends in \<open>_0000.nii.gz\<close> that the per-pair function is given (the files \<open>main\<close>
  collects), in each of its three outcomes.
\<close>

theorem reference_kept:
  "(image_0000_path \<noteq> image_0001_path
      \<and> (overwrite \<or> image_0000_path \<noteq> backup_path image_0001_path)
    \<longrightarrow> files (snd (fix_metadata image_0000_path image_0001_path overwrite st)) image_0000_path
          = files st image_0000_path)
   \<and> (suffix ''_0000.nii.gz'' (name image_0000_path)
    \<longrightarrow> files (snd (fix_metadata_wrapper image_0000_path overwrite st)) image_0000_path
          = files st image_0000_path)"
  using fix_metadata_frame [of image_0000_path image_0001_path overwrite]
    fix_metadata_wrapper_frame [of image_0000_path]
  by blast

theorem reference_kept_witness:
  "example_ref \<noteq> example_dep
   \<and> example_ref \<noteq> backup_path example_dep
   \<and> suffix ''_0000.nii.gz'' (name example_ref)
   \<and> files (snd (fix_metadata example_ref example_dep False example_fs)) example_ref
       = Some (Volume example_ref_vol)
   \<and> files (snd (fix_metadata_wrapper example_ref False example_fs)) example_ref
       = Some (Volume example_ref_vol)
   \<and> files (snd (fix_metadata_wrapper example_ref True example_fs_corrupt)) example_ref
       = Some (Volume example_ref_vol)"
proof -
  have a: "example_ref \<noteq> example_dep" by (rule example_paths_distinct)
  have b: "example_ref \<noteq> backup_path example_dep"
    by (simp add: example_backup_path example_paths_distinct)
  have s: "suffix ''_0000.nii.gz'' (name example_ref)"
    by (simp add: example_ref_def suffix_def)
  have f: "files example_fs example_ref = Some (Volume example_ref_vol)"
    by (simp add: example_fs_def example_paths_distinct)
  have g: "files example_fs_corrupt example_ref = Some (Volume example_ref_vol)"
    by (simp add: example_fs_corrupt_def example_paths_distinct)
  from reference_kept [of example_ref example_dep False example_fs] a b s f
  have c: "files (snd (fix_metadata example_ref example_dep False example_fs)) example_ref
       = Some (Volume example_ref_vol)"
    and d: "files (snd (fix_metadata_wrapper example_ref False example_fs)) example_ref
       = Some (Volume example_ref_vol)"
    by simp_all
  from reference_kept [of example_ref example_dep True example_fs_corrupt] s g
  have e: "files (snd (fix_metadata_wrapper example_ref True example_fs_corrupt)) example_ref
       = Some (Volume example_ref_vol)"
    by simp
  show ?thesis by (intro conjI a b s c d e)
qed

lemma example_backup_path_alias: "example_backup \<noteq> example_dep"
  using example_paths_distinct(3) by simp

lemma example_alias_run:
  "fix_metadata example_backup example_dep False example_fs_alias =
     (Inr True, example_fs_alias\<lparr>files := (files example_fs_alias)
        (example_backup \<mapsto> Volume example_dep_vol,
         example_dep \<mapsto> Volume (reconciled example_ref_vol example_dep_vol))\<rparr>)"
  unfolding fix_metadata_success_iff
  by (intro exI [of _ example_ref_vol] exI [of _ example_dep_vol])
    (simp add: example_fs_alias_def example_paths_distinct example_paths_distinct [symmetric]
      example_decomposable example_backup_path)

lemma example_vols_differ: "example_dep_vol \<noteq> example_ref_vol"
proof
  assume "example_dep_vol = example_ref_vol"
  then have "qform_code (header example_dep_vol) = qform_code (header example_ref_vol)" by simp
  then show False by (simp add: example_dep_vol_def example_ref_vol_def)
qed

lemma example_dep_own_dependent: "img_0001_path_of example_dep = example_dep"
  by code_simp

lemma example_self_run:
  "fix_metadata example_dep example_dep True example_fs =
     (Inr True, example_fs\<lparr>files := (files example_fs)
        (example_dep \<mapsto> Volume (reconciled example_dep_vol example_dep_vol))\<rparr>)"
  unfolding fix_metadata_success_iff
  by (intro exI [of _ example_dep_vol] exI [of _ example_dep_vol])
    (simp add: example_fs_def example_decomposable)

lemma example_self_wrapper:
  "fix_metadata_wrapper example_dep True example_fs =
     (Inr (''success'', None), example_fs\<lparr>files := (files example_fs)
        (example_dep \<mapsto> Volume (reconciled example_dep_vol example_dep_vol))\<rparr>)"
proof -
  have "path_exists example_fs (img_0001_path_of example_dep) = Inr True"
    by (simp add: example_dep_own_dependent path_exists_def example_fs_def)
  then show ?thesis
    by (simp add: fix_metadata_wrapper_present example_dep_own_dependent example_self_run)
qed

lemma example_self_changed: "reconciled example_dep_vol example_dep_vol \<noteq> example_dep_vol"
proof
  assume "reconciled example_dep_vol example_dep_vol = example_dep_vol"
  then have "dataobj (reconciled example_dep_vol example_dep_vol) = dataobj example_dep_vol"
    by simp
  then show False
    by (simp add: reconciled_fields astype_uint8_def example_dep_vol_def)
qed

text \<open>
  C7 as stated fails when the reference lies at the backup path of the dependent: with
  \<open>caseA_0001_backup.nii.gz\<close> as reference, \<open>caseA_0001.nii.gz\<close> as dependent and a
  backup asked for, the run returns \<open>True\<close> and the reference file then holds the
  dependent's original volume. It fails too when the per-pair function is given a
  path whose name has no \<open>_0000.nii.gz\<close>: the dependent path is then the reference path,
  and the run writes the reconciled volume over the reference.
\<close>

theorem reference_overwritten_counterexample:
  "example_backup \<noteq> example_dep
   \<and> files example_fs_alias example_backup = Some (Volume example_ref_vol)
   \<and> fst (fix_metadata example_backup example_dep False example_fs_alias) = Inr True
   \<and> files (snd (fix_metadata example_backup example_dep False example_fs_alias)) example_backup
       = Some (Volume example_dep_vol)
   \<and> example_dep_vol \<noteq> example_ref_vol
   \<and> files example_fs example_dep = Some (Volume example_dep_vol)
   \<and> fst (fix_metadata_wrapper example_dep True example_fs) = Inr (''success'', None)
   \<and> files (snd (fix_metadata_wrapper example_dep True example_fs)) example_dep
       = Some (Volume (reconciled example_dep_vol example_dep_vol))
   \<and> reconciled example_dep_vol example_dep_vol \<noteq> example_dep_vol"
proof -
  have a: "files example_fs_alias example_backup = Some (Volume example_ref_vol)"
    by (simp add: example_fs_alias_def example_backup_path_alias)
  have b: "files example_fs example_dep = Some (Volume example_dep_vol)"
    by (simp add: example_fs_def)
  show ?thesis
    by (simp add: a b example_alias_run example_vols_differ example_backup_path_alias
        example_self_wrapper example_self_changed)
qed

text \<open>
  C6, as the code has it. A file is identified with the volume it holds. After a run
  that returns, a second run on the same paths returns too and leaves the same volume
  at the dependent path, provided the first run did not write its backup over the
  reference: \<open>overwrite\<close> is set, or the reference path is not the backup path, or it is
  the dependent path itself. With \<open>overwrite\<close> the second run changes no file at all;
  without it the second run writes the reconciled volume over the first backup.
\<close>

theorem idempotent_spec:
  assumes "fix_metadata image_0000_path image_0001_path overwrite st = (Inr r, st1)"
    and "overwrite \<or> image_0000_path \<noteq> backup_path image_0001_path
           \<or> image_0000_path = image_0001_path"
  shows "\<exists>st2. fix_metadata image_0000_path image_0001_path overwrite st1 = (Inr True, st2)
           \<and> files st2 image_0001_path = files st1 image_0001_path
           \<and> (overwrite \<longrightarrow> st2 = st1)"
proof -
  let ?r = image_0000_path and ?d = image_0001_path and ?b = "backup_path image_0001_path"
  from assms(1) obtain v0 v1 where
    f0: "files st ?r = Some (Volume v0)" and
    f1: "files st ?d = Some (Volume v1)" and
    s0: "stat_fault st ?r = None" and
    s1: "stat_fault st ?d = None" and
    dec: "decomposable (affine_of v0)" and
    wd: "write_fault st ?d = None" and
    wb: "overwrite \<or> write_fault st ?b = None" and
    st1: "st1 = (if overwrite
                then st\<lparr>files := (files st)(?d \<mapsto> Volume (reconciled v0 v1))\<rparr>
                else st\<lparr>files := (files st)(?b \<mapsto> Volume v1,
                                            ?d \<mapsto> Volume (reconciled v0 v1))\<rparr>)"
    unfolding fix_metadata_success_iff by (elim exE conjE) (rule that; assumption)
  let ?fixed = "reconciled v0 v1"
  have d1: "files st1 ?d = Some (Volume ?fixed)" by (simp add: st1)
  have w1: "write_fault st1 = write_fault st" by (simp add: st1)
  have t1: "stat_fault st1 = stat_fault st" by (simp add: st1)
  obtain v0' where r1: "files st1 ?r = Some (Volume v0')"
    and same: "reconciled v0' ?fixed = ?fixed"
    and dec': "decomposable (affine_of v0')"
  proof (cases "?r = ?d")
    case True
    with f0 f1 have "v0 = v1" by simp
    with True d1 dec have "files st1 ?r = Some (Volume ?fixed)"
      "reconciled ?fixed ?fixed = ?fixed" "decomposable (affine_of ?fixed)"
      by (simp_all add: reconciled_self decomposable_reconciled_self)
    then show ?thesis by (rule that)
  next
    case False
    with assms(2) have "overwrite \<or> ?r \<noteq> ?b" by blast
    with False f0 have "files st1 ?r = Some (Volume v0)" by (auto simp: st1)
    then show ?thesis by (rule that) (rule reconciled_again, rule dec)
  qed
  define st2 where "st2 = (if overwrite
                then st1\<lparr>files := (files st1)(?d \<mapsto> Volume (reconciled v0' ?fixed))\<rparr>
                else st1\<lparr>files := (files st1)(?b \<mapsto> Volume ?fixed,
                                            ?d \<mapsto> Volume (reconciled v0' ?fixed))\<rparr>)"
  have run: "fix_metadata ?r ?d overwrite st1 = (Inr True, st2)"
    unfolding fix_metadata_success_iff
    using r1 d1 wd wb s0 s1 dec'
    by (intro exI [of _ v0'] exI [of _ ?fixed]) (simp add: w1 t1 st2_def)
  have keep: "files st2 ?d = files st1 ?d"
    by (simp add: st2_def same d1)
  have noop: "overwrite \<longrightarrow> st2 = st1"
    by (simp add: st2_def same st1)
  from run keep noop show ?thesis by (intro exI [of _ st2] conjI)
qed

theorem idempotent_spec_witness:
  "fix_metadata example_ref example_dep False example_fs =
     (Inr True, example_fs\<lparr>files := (files example_fs)(example_backup \<mapsto> Volume example_dep_vol,
        example_dep \<mapsto> Volume (reconciled example_ref_vol example_dep_vol))\<rparr>)
   \<and> example_ref \<noteq> backup_path example_dep
   \<and> (\<exists>st2. fix_metadata example_ref example_dep False
         (example_fs\<lparr>files := (files example_fs)(example_backup \<mapsto> Volume example_dep_vol,
            example_dep \<mapsto> Volume (reconciled example_ref_vol example_dep_vol))\<rparr>) = (Inr True, st2)
        \<and> files st2 example_dep = Some (Volume (reconciled example_ref_vol example_dep_vol)))"
proof -
  have b: "example_ref \<noteq> backup_path example_dep"
    by (simp add: example_backup_path example_paths_distinct)
  then have h: "False \<or> example_ref \<noteq> backup_path example_dep \<or> example_ref = example_dep"
    by simp
  from idempotent_spec [OF example_run_backup h] obtain st2 where
    "fix_metadata example_ref example_dep False
         (example_fs\<lparr>files := (files example_fs)(example_backup \<mapsto> Volume example_dep_vol,
            example_dep \<mapsto> Volume (reconciled example_ref_vol example_dep_vol))\<rparr>) = (Inr True, st2)"
    "files st2 example_dep =
       files (example_fs\<lparr>files := (files example_fs)(example_backup \<mapsto> Volume example_dep_vol,
            example_dep \<mapsto> Volume (reconciled example_ref_vol example_dep_vol))\<rparr>) example_dep"
    by blast
  then have "\<exists>st2. fix_metadata example_ref example_dep False
         (example_fs\<lparr>files := (files example_fs)(example_backup \<mapsto> Volume example_dep_vol,
            example_dep \<mapsto> Volume (reconciled example_ref_vol example_dep_vol))\<rparr>) = (Inr True, st2)
        \<and> files st2 example_dep = Some (Volume (reconciled example_ref_vol example_dep_vol))"
    by simp
  with example_run_backup b show ?thesis by blast
qed

lemma example_alias_second_run:
  "fix_metadata example_backup example_dep False
     (example_fs_alias\<lparr>files := (files example_fs_alias)
        (example_backup \<mapsto> Volume example_dep_vol,
         example_dep \<mapsto> Volume (reconciled example_ref_vol example_dep_vol))\<rparr>) =
   (Inr True, example_fs_alias\<lparr>files := (files example_fs_alias)
        (example_backup \<mapsto> Volume (reconciled example_ref_vol example_dep_vol),
         example_dep \<mapsto> Volume (reconciled example_dep_vol
            (reconciled example_ref_vol example_dep_vol)))\<rparr>)"
  unfolding fix_metadata_success_iff
  by (intro exI [of _ example_dep_vol] exI [of _ "reconciled example_ref_vol example_dep_vol"])
    (simp add: example_fs_alias_def example_paths_distinct example_paths_distinct [symmetric]
      example_decomposable example_backup_path)

text \<open>
  C6 as stated fails on the same pair as C7: the first run replaces the reference by
  the dependent's original volume, so the second run gives the dependent the original
  geometry back and the two outputs differ.
\<close>

theorem idempotent_counterexample:
  "example_backup = backup_path example_dep
   \<and> example_backup \<noteq> example_dep
   \<and> fst (fix_metadata example_backup example_dep False example_fs_alias) = Inr True
   \<and> fst (fix_metadata example_backup example_dep False
        (snd (fix_metadata example_backup example_dep False example_fs_alias))) = Inr True
   \<and> files (snd (fix_metadata example_backup example_dep False
        (snd (fix_metadata example_backup example_dep False example_fs_alias)))) example_dep
      \<noteq> files (snd (fix_metadata example_backup example_dep False example_fs_alias)) example_dep"
proof -
  have "srow (header (reconciled example_dep_vol (reconciled example_ref_vol example_dep_vol)))
      \<noteq> srow (header (reconciled example_ref_vol example_dep_vol))"
    by (simp add: reconciled_fields example_affines top_rows_def)
  then have "reconciled example_dep_vol (reconciled example_ref_vol example_dep_vol)
      \<noteq> reconciled example_ref_vol example_dep_vol"
    by auto
  then show ?thesis
    by (simp add: example_alias_run example_alias_second_run example_backup_path
        example_backup_path_alias)
qed

end
